theory Spec2Isabelle
  imports Complex_Main
begin

section \<open>Strings: lower-casing and the slug of a day label\<close>

text \<open>
  A string is a list of characters; a character holds one code unit below 256, which
  covers every letter of a French day label (Latin-1). The three string operations of
  the planning window are JavaScript built-ins: \<^verbatim>\<open>toLowerCase()\<close>, the class
  \<^verbatim>\<open>\s\<close> of a regular expression and \<^verbatim>\<open>replace(/\s+/g, '-')\<close>.
\<close>

definition isUpper :: "char \<Rightarrow> bool" where
  "isUpper c =
     (let n = of_char c :: nat
      in (65 \<le> n \<and> n \<le> 90) \<or> (192 \<le> n \<and> n \<le> 222 \<and> n \<noteq> 215))"

definition lowerChar :: "char \<Rightarrow> char" where
  "lowerChar c = (if isUpper c then char_of (of_char c + (32::nat)) else c)"

definition toLowerCase :: "string \<Rightarrow> string" where
  "toLowerCase s = map lowerChar s"

text \<open>The class \<^verbatim>\<open>\s\<close> below 256: tab, line feed, vertical tab, form feed,
  carriage return, space and the no-break space.\<close>

definition isWhitespace :: "char \<Rightarrow> bool" where
  "isWhitespace c =
     (let n = of_char c :: nat in (9 \<le> n \<and> n \<le> 13) \<or> n = 32 \<or> n = 160)"

text \<open>\<^verbatim>\<open>s.replace(/\s+/g, '-')\<close>: scanning from the left, every maximal run of
  whitespace becomes one hyphen, every other character is kept.\<close>

function replaceWhitespace :: "string \<Rightarrow> string" where
  "replaceWhitespace [] = []"
| "replaceWhitespace (c # cs) =
     (if isWhitespace c then CHR ''-'' # replaceWhitespace (dropWhile isWhitespace cs)
      else c # replaceWhitespace cs)"
  by pat_completeness auto
termination
  by (relation "measure length") (auto simp: length_dropWhile_le less_Suc_eq_le)

section \<open>The planning window\<close>

text \<open>
  A calendar day is its number of days since 1 January 1970 in the process's time zone;
  \<^verbatim>\<open>date.setDate(today.getDate() + i)\<close> on a copy of \<open>today\<close> is the day
  \<open>today + i\<close>. The rendering \<^verbatim>\<open>toLocaleDateString('fr-FR', {weekday: 'long',
  day: 'numeric', month: 'long'})\<close> belongs to the runtime's locale data, not to the
  repository: it is the parameter \<open>fmt\<close> of everything below.
\<close>

type_synonym day = int
type_synonym render = "day \<Rightarrow> string"

record desiredChannel =
  channelName :: string
  dayLabel :: string

definition labelOf :: "render \<Rightarrow> day \<Rightarrow> string" where
  "labelOf fmt d = toLowerCase (fmt d)"

definition slugOf :: "render \<Rightarrow> day \<Rightarrow> string" where
  "slugOf fmt d = replaceWhitespace (labelOf fmt d)"

text \<open>The entry of the window for one day, in closed form.\<close>

definition mkDesired :: "render \<Rightarrow> day \<Rightarrow> desiredChannel" where
  "mkDesired fmt d = \<lparr>channelName = slugOf fmt d, dayLabel = labelOf fmt d\<rparr>"

text \<open>
  The loop of \<^verbatim>\<open>syncPlanning\<close> (planningManager.ts, lines 136 to 151):
  \<^verbatim>\<open>for (let i = 0; i < config.planning.daysAhead; i++)\<close> with its two accumulators,
  the array \<^verbatim>\<open>desiredChannels\<close> and the set \<^verbatim>\<open>allowedNames\<close>.
  \<open>daysAhead\<close> is any finite number the configuration loader returns.
\<close>

function windowLoop ::
  "render \<Rightarrow> day \<Rightarrow> real \<Rightarrow> int \<Rightarrow> desiredChannel list \<times> string set
     \<Rightarrow> desiredChannel list \<times> string set" where
  "windowLoop fmt today daysAhead i acc =
     (if real_of_int i < daysAhead then
        (let date = today + i;
             lbl = toLowerCase (fmt date);
             nm = replaceWhitespace lbl
         in windowLoop fmt today daysAhead (i + 1)
              (fst acc @ [\<lparr>channelName = nm, dayLabel = lbl\<rparr>], insert nm (snd acc)))
      else acc)"
  by pat_completeness auto
termination
  by (relation "measure (\<lambda>(fmt, today, daysAhead, i, acc). nat \<lceil>daysAhead - real_of_int i\<rceil>)")
     (auto simp: nat_less_iff, linarith)

declare windowLoop.simps [simp del]

definition planningWindow :: "render \<Rightarrow> day \<Rightarrow> real \<Rightarrow> desiredChannel list \<times> string set" where
  "planningWindow fmt today daysAhead = windowLoop fmt today daysAhead 0 ([], {})"

text \<open>The slug of today's channel as \<^verbatim>\<open>getUsersFromPlanning\<close> computes it
  (index.ts, lines 340 to 349).\<close>

definition todayChannelName :: "render \<Rightarrow> day \<Rightarrow> string" where
  "todayChannelName fmt today =
     (let targetDate = today;
          lbl = toLowerCase (fmt targetDate)
      in replaceWhitespace lbl)"


section \<open>The guild, its channels and the remote calls\<close>

text \<open>
  The guild's channel cache (\<^verbatim>\<open>guild.channels.cache\<close>) is a collection keyed by
  channel id that iterates in insertion order: here the list \<open>channels\<close>, oldest entry
  first. A text channel carries its messages, oldest first; a message carries its
  reaction cache, keyed by emoji, with the users behind each reaction. Ids are
  snowflakes, decimal strings in the source and natural numbers here.
\<close>

type_synonym snowflake = nat

datatype ChannelType = GuildText | GuildCategory | GuildVoice

record user =
  uid :: snowflake
  bot :: bool

record message =
  messageId :: snowflake
  content :: string
  embeds :: "string list"
  reactions :: "(string \<times> user list) list"

record channel =
  cid :: snowflake
  name :: string
  parentId :: "snowflake option"
  ctype :: ChannelType
  messages :: "message list"

text \<open>The affirmative reaction, U+2705, as the three bytes of its UTF-8 form.\<close>

definition checkMark :: string where
  "checkMark = [char_of (226::nat), char_of (156::nat), char_of (133::nat)]"

text \<open>
  Every awaited call to the platform is a remote call that either succeeds or rejects.
  The calls a run issues are recorded in order in \<open>calls\<close>; which of them succeed is
  the platform's choice, the parameter \<open>rem\<close> of the run: \<open>rem k c\<close> tells whether
  the call \<open>c\<close> succeeds when it is the \<open>k\<close>-th call recorded.
\<close>

datatype call =
    ChannelDelete snowflake
  | ChannelCreate string
  | MessageSend snowflake string
  | MessageReact snowflake string
  | MessagesFetch snowflake
  | ReactionUsersFetch snowflake
  | UserFetch snowflake

datatype error = Rejected call

type_synonym remote = "nat \<Rightarrow> call \<Rightarrow> bool"

datatype logLine =
    InfoDeleteOutOfRange string
  | InfoCreateChannel string
  | InfoSearchChannel string nat int
  | WarnCategoryNotFound string
  | WarnChannelNotFound string
  | InfoChannelFound string snowflake
  | InfoMessagesFetched nat
  | InfoSearchSlot string
  | WarnSlotMessageNotFound string
  | InfoSlotMessageFound string snowflake
  | WarnNoReaction string
  | InfoReactedCount string nat
  | InfoUserAdded snowflake
  | InfoTotalUsers nat
  | WarnUserUnavailable snowflake

text \<open>The client's side of the guild: the channel cache, the users the client has in
  its user cache (\<^verbatim>\<open>client.users.cache\<close>, by id), the client's own user, and the
  records of calls and of log lines. \<open>nextId\<close> is the id the platform gives to the next
  channel or message.\<close>

record world =
  channels :: "channel list"
  nextId :: snowflake
  clientUser :: user
  userCache :: "snowflake list"
  calls :: "call list"
  logs :: "logLine list"

definition logger :: "logLine \<Rightarrow> world \<Rightarrow> world" where
  "logger l w = w\<lparr>logs := logs w @ [l]\<rparr>"

definition issue :: "remote \<Rightarrow> call \<Rightarrow> world \<Rightarrow> bool \<times> world" where
  "issue rem c w = (rem (length (calls w)) c, w\<lparr>calls := calls w @ [c]\<rparr>)"

text \<open>\<^verbatim>\<open>channel.delete(reason)\<close>: on success the channel leaves the cache.\<close>

definition channelDelete :: "remote \<Rightarrow> channel \<Rightarrow> world \<Rightarrow> error option \<times> world" where
  "channelDelete rem c w =
     (case issue rem (ChannelDelete (cid c)) w of
        (False, w1) \<Rightarrow> (Some (Rejected (ChannelDelete (cid c))), w1)
      | (True, w1) \<Rightarrow> (None, w1\<lparr>channels := filter (\<lambda>d. cid d \<noteq> cid c) (channels w1)\<rparr>))"

text \<open>\<^verbatim>\<open>guild.channels.create({name, type, parent})\<close>: on success a channel with a
  fresh id and no message enters the cache.\<close>

definition channelsCreate ::
  "remote \<Rightarrow> string \<Rightarrow> ChannelType \<Rightarrow> snowflake option \<Rightarrow> world \<Rightarrow> (error + channel) \<times> world" where
  "channelsCreate rem nm ty parent w =
     (case issue rem (ChannelCreate nm) w of
        (False, w1) \<Rightarrow> (Inl (Rejected (ChannelCreate nm)), w1)
      | (True, w1) \<Rightarrow>
          (let created = \<lparr>cid = nextId w1, name = nm, parentId = parent, ctype = ty,
                          messages = []\<rparr>
           in (Inr created,
               w1\<lparr>channels := channels w1 @ [created], nextId := Suc (nextId w1)\<rparr>)))"

text \<open>\<^verbatim>\<open>channel.send(...)\<close>: on success a message with a fresh id is appended to the
  messages of the channel with that id.\<close>

definition channelSend ::
  "remote \<Rightarrow> snowflake \<Rightarrow> string \<Rightarrow> string list \<Rightarrow> world \<Rightarrow> (error + message) \<times> world" where
  "channelSend rem ch body titles w =
     (case issue rem (MessageSend ch body) w of
        (False, w1) \<Rightarrow> (Inl (Rejected (MessageSend ch body)), w1)
      | (True, w1) \<Rightarrow>
          (let sent = \<lparr>messageId = nextId w1, content = body, embeds = titles,
                       reactions = []\<rparr>
           in (Inr sent,
               w1\<lparr>channels := map (\<lambda>c. if cid c = ch then c\<lparr>messages := messages c @ [sent]\<rparr>
                                          else c) (channels w1),
                  nextId := Suc (nextId w1)\<rparr>)))"

definition addReaction :: "string \<Rightarrow> user \<Rightarrow> message \<Rightarrow> message" where
  "addReaction emoji u m =
     (case map_of (reactions m) emoji of
        None \<Rightarrow> m\<lparr>reactions := reactions m @ [(emoji, [u])]\<rparr>
      | Some us \<Rightarrow>
          m\<lparr>reactions := map (\<lambda>(k, v). if k = emoji then (k, v @ [u]) else (k, v))
                             (reactions m)\<rparr>)"

text \<open>\<^verbatim>\<open>message.react(emoji)\<close>: on success the client's own user is added to the
  reaction of the message.\<close>

definition messageReact ::
  "remote \<Rightarrow> snowflake \<Rightarrow> string \<Rightarrow> world \<Rightarrow> error option \<times> world" where
  "messageReact rem msg emoji w =
     (case issue rem (MessageReact msg emoji) w of
        (False, w1) \<Rightarrow> (Some (Rejected (MessageReact msg emoji)), w1)
      | (True, w1) \<Rightarrow>
          (None,
           w1\<lparr>channels :=
                 map (\<lambda>c. c\<lparr>messages :=
                              map (\<lambda>m. if messageId m = msg then addReaction emoji (clientUser w1) m
                                        else m) (messages c)\<rparr>)
                     (channels w1)\<rparr>))"

section \<open>The channel reconciler: syncPlanning\<close>

record planningConfig =
  categoryName :: string
  daysAhead :: real
  timeSlots :: "string list"

text \<open>\<^verbatim>\<open>initializePlanningChannel\<close> (planningManager.ts, lines 196 to 211): one header
  message with an embed, then for every configured slot one message and one reaction.
  No call is guarded: the first rejection ends the run.\<close>

fun seedSlots :: "remote \<Rightarrow> channel \<Rightarrow> string list \<Rightarrow> world \<Rightarrow> error option \<times> world" where
  "seedSlots rem ch [] w = (None, w)"
| "seedSlots rem ch (slot # slots) w =
     (case channelSend rem (cid ch) slot [] w of
        (Inl e, w1) \<Rightarrow> (Some e, w1)
      | (Inr msg, w1) \<Rightarrow>
          (case messageReact rem (messageId msg) checkMark w1 of
             (Some e, w2) \<Rightarrow> (Some e, w2)
           | (None, w2) \<Rightarrow> seedSlots rem ch slots w2))"

definition initializePlanningChannel ::
  "remote \<Rightarrow> planningConfig \<Rightarrow> channel \<Rightarrow> string \<Rightarrow> world \<Rightarrow> error option \<times> world" where
  "initializePlanningChannel rem cfg ch lbl w =
     (case channelSend rem (cid ch) [] [''Planning pour '' @ lbl] w of
        (Inl e, w1) \<Rightarrow> (Some e, w1)
      | (Inr header, w1) \<Rightarrow> seedSlots rem ch (timeSlots cfg) w1)"

text \<open>The deletion loop (lines 159 to 164) runs over the snapshot \<open>chans\<close> taken by
  \<^verbatim>\<open>cache.filter\<close> before the first deletion.\<close>

fun deleteLoop :: "remote \<Rightarrow> string set \<Rightarrow> channel list \<Rightarrow> world \<Rightarrow> error option \<times> world" where
  "deleteLoop rem allowedNames [] w = (None, w)"
| "deleteLoop rem allowedNames (c # chans) w =
     (if name c \<notin> allowedNames then
        (case channelDelete rem c (logger (InfoDeleteOutOfRange (name c)) w) of
           (Some e, w1) \<Rightarrow> (Some e, w1)
         | (None, w1) \<Rightarrow> deleteLoop rem allowedNames chans w1)
      else deleteLoop rem allowedNames chans w)"

text \<open>The creation loop (lines 166 to 186) looks every desired name up in the cache as
  it is at that moment.\<close>

fun createLoop ::
  "remote \<Rightarrow> planningConfig \<Rightarrow> channel \<Rightarrow> desiredChannel list \<Rightarrow> world \<Rightarrow> error option \<times> world" where
  "createLoop rem cfg category [] w = (None, w)"
| "createLoop rem cfg category (d # ds) w =
     (case find (\<lambda>c. name c = channelName d \<and> parentId c = Some (cid category) \<and>
                      ctype c = GuildText) (channels w) of
        Some existingChannel \<Rightarrow> createLoop rem cfg category ds w
      | None \<Rightarrow>
          (case channelsCreate rem (channelName d) GuildText (Some (cid category))
                  (logger (InfoCreateChannel (channelName d)) w) of
             (Inl e, w1) \<Rightarrow> (Some e, w1)
           | (Inr newChannel, w1) \<Rightarrow>
               (case initializePlanningChannel rem cfg newChannel (dayLabel d) w1 of
                  (Some e, w2) \<Rightarrow> (Some e, w2)
                | (None, w2) \<Rightarrow> createLoop rem cfg category ds w2)))"

definition syncPlanning ::
  "remote \<Rightarrow> render \<Rightarrow> planningConfig \<Rightarrow> day \<Rightarrow> channel \<Rightarrow> world \<Rightarrow> error option \<times> world" where
  "syncPlanning rem fmt cfg today category w =
     (case planningWindow fmt today (daysAhead cfg) of
        (desiredChannels, allowedNames) \<Rightarrow>
          (let chans = filter (\<lambda>c. parentId c = Some (cid category) \<and> ctype c = GuildText)
                         (channels w)
           in case deleteLoop rem allowedNames chans w of
                (Some e, w1) \<Rightarrow> (Some e, w1)
              | (None, w1) \<Rightarrow> createLoop rem cfg category desiredChannels w1))"

section \<open>The configuration loader: parseNumericEnv\<close>

text \<open>\<^verbatim>\<open>Number(value)\<close> is a JavaScript built-in: its result on a string is the
  parameter \<open>toNumber\<close>, a finite number or one of the three values that
  \<^verbatim>\<open>Number.isFinite\<close> refuses.\<close>

datatype jsNumber = Finite real | NaN | PosInfinity | NegInfinity

definition isFinite :: "jsNumber \<Rightarrow> bool" where
  "isFinite n = (case n of Finite r \<Rightarrow> True | _ \<Rightarrow> False)"

definition parseNumericEnv :: "(string \<Rightarrow> jsNumber) \<Rightarrow> string option \<Rightarrow> real \<Rightarrow> real" where
  "parseNumericEnv toNumber v defaultValue =
     (case v of
        None \<Rightarrow> defaultValue
      | Some s \<Rightarrow>
          (let parsed = toNumber s
           in if \<not> isFinite parsed then defaultValue
              else (case parsed of Finite r \<Rightarrow> r | _ \<Rightarrow> defaultValue)))"

section \<open>The reminder correlator: getUsersFromPlanning\<close>

text \<open>\<^verbatim>\<open>today.getDay()\<close>: day 0 of the calendar, 1 January 1970, was a Thursday.\<close>

definition getDay :: "day \<Rightarrow> nat" where
  "getDay d = nat ((d + 4) mod 7)"

text \<open>\<^verbatim>\<open>planningChannel.messages.fetch({ limit: 100 })\<close>: the most recent messages of
  the channel, newest first, at most \<open>limit\<close> of them.\<close>

definition messagesFetch ::
  "remote \<Rightarrow> channel \<Rightarrow> nat \<Rightarrow> world \<Rightarrow> (error + message list) \<times> world" where
  "messagesFetch rem ch limit w =
     (case issue rem (MessagesFetch (cid ch)) w of
        (False, w1) \<Rightarrow> (Inl (Rejected (MessagesFetch (cid ch))), w1)
      | (True, w1) \<Rightarrow> (Inr (take limit (rev (messages ch))), w1))"

text \<open>\<^verbatim>\<open>reaction.users.fetch()\<close>, called without options: one request that lists at
  most the first 100 users behind the reaction, in the platform's order (here the order
  of the list stored with the reaction); every user listed enters the client's user
  cache.\<close>

definition reactionUsersFetch ::
  "remote \<Rightarrow> message \<Rightarrow> user list \<Rightarrow> world \<Rightarrow> (error + user list) \<times> world" where
  "reactionUsersFetch rem msg reactedBy w =
     (case issue rem (ReactionUsersFetch (messageId msg)) w of
        (False, w1) \<Rightarrow> (Inl (Rejected (ReactionUsersFetch (messageId msg))), w1)
      | (True, w1) \<Rightarrow>
          (let fetched = take 100 reactedBy
           in (Inr fetched, w1\<lparr>userCache := userCache w1 @ map uid fetched\<rparr>)))"

text \<open>\<^verbatim>\<open>client.users.fetch(userId)\<close>: a user in the cache is returned without a
  request; otherwise one request, whose result enters the cache.\<close>

definition usersFetch :: "remote \<Rightarrow> snowflake \<Rightarrow> world \<Rightarrow> bool \<times> world" where
  "usersFetch rem userId w =
     (if userId \<in> set (userCache w) then (True, w)
      else (case issue rem (UserFetch userId) w of
              (True, w1) \<Rightarrow> (True, w1\<lparr>userCache := userCache w1 @ [userId]\<rparr>)
            | (False, w1) \<Rightarrow> (False, w1)))"

text \<open>\<^verbatim>\<open>usersSet.add(user.id)\<close> on a \<^verbatim>\<open>Set\<close>, which keeps insertion order and
  holds every value once.\<close>

definition setAdd :: "snowflake \<Rightarrow> snowflake list \<Rightarrow> snowflake list" where
  "setAdd i s = (if i \<in> set s then s else s @ [i])"

text \<open>The inner loop over the users behind a reaction (index.ts, lines 407 to 413).\<close>

fun addUsers :: "user list \<Rightarrow> snowflake list \<Rightarrow> world \<Rightarrow> snowflake list \<times> world" where
  "addUsers [] usersSet w = (usersSet, w)"
| "addUsers (u # us) usersSet w =
     (if \<not> bot u then addUsers us (setAdd (uid u) usersSet) (logger (InfoUserAdded (uid u)) w)
      else addUsers us usersSet w)"

text \<open>The loop over the relevant time slots (lines 385 to 414). A slot without a
  message, or whose message has no affirmative reaction, is skipped with a warning; the
  listing of the users behind a reaction is a remote call that is not guarded.\<close>

fun slotLoop ::
  "remote \<Rightarrow> message list \<Rightarrow> string list \<Rightarrow> snowflake list \<Rightarrow> world
     \<Rightarrow> (error + snowflake list) \<times> world" where
  "slotLoop rem msgs [] usersSet w = (Inr usersSet, w)"
| "slotLoop rem msgs (timeSlot # rest) usersSet w =
     (case find (\<lambda>m. content m = timeSlot) msgs of
        None \<Rightarrow>
          slotLoop rem msgs rest usersSet
            (logger (WarnSlotMessageNotFound timeSlot) (logger (InfoSearchSlot timeSlot) w))
      | Some slotMessage \<Rightarrow>
          (case map_of (reactions slotMessage) checkMark of
             None \<Rightarrow>
               slotLoop rem msgs rest usersSet
                 (logger (WarnNoReaction timeSlot)
                    (logger (InfoSlotMessageFound timeSlot (messageId slotMessage))
                       (logger (InfoSearchSlot timeSlot) w)))
           | Some reaction \<Rightarrow>
               (case reactionUsersFetch rem slotMessage reaction
                       (logger (InfoSlotMessageFound timeSlot (messageId slotMessage))
                          (logger (InfoSearchSlot timeSlot) w)) of
                  (Inl e, w1) \<Rightarrow> (Inl e, w1)
                | (Inr reactedUsers, w1) \<Rightarrow>
                    (case addUsers reactedUsers usersSet
                            (logger (InfoReactedCount timeSlot (length reactedUsers)) w1) of
                       (usersSet', w2) \<Rightarrow> slotLoop rem msgs rest usersSet' w2))))"

text \<open>The conversion of the collected ids into users (lines 419 to 427): each
  \<^verbatim>\<open>client.users.fetch(userId)\<close> is guarded, a rejected one drops that id with a
  warning. A fetched user is represented by its id.\<close>

fun resolveLoop ::
  "remote \<Rightarrow> snowflake list \<Rightarrow> snowflake list \<Rightarrow> world \<Rightarrow> snowflake list \<times> world" where
  "resolveLoop rem [] users w = (users, w)"
| "resolveLoop rem (userId # rest) users w =
     (case usersFetch rem userId w of
        (True, w1) \<Rightarrow> resolveLoop rem rest (users @ [userId]) w1
      | (False, w1) \<Rightarrow> resolveLoop rem rest users (logger (WarnUserUnavailable userId) w1))"

definition getUsersFromPlanning ::
  "remote \<Rightarrow> planningConfig \<Rightarrow> render \<Rightarrow> day \<Rightarrow> int \<Rightarrow> string list \<Rightarrow> world
     \<Rightarrow> (error + snowflake list) \<times> world" where
  "getUsersFromPlanning rem cfg fmt today dayOfWeek slots w =
     (let currentDayOfWeek = getDay today;
          chName = todayChannelName fmt today;
          w0 = logger (InfoSearchChannel chName currentDayOfWeek dayOfWeek) w
      in case find (\<lambda>c. ctype c = GuildCategory \<and> name c = categoryName cfg) (channels w0) of
           None \<Rightarrow> (Inr [], logger (WarnCategoryNotFound (categoryName cfg)) w0)
         | Some planningCategory \<Rightarrow>
             (case find (\<lambda>c. parentId c = Some (cid planningCategory) \<and> ctype c = GuildText \<and>
                              name c = chName) (channels w0) of
                None \<Rightarrow> (Inr [], logger (WarnChannelNotFound chName) w0)
              | Some planningChannel \<Rightarrow>
                  (case messagesFetch rem planningChannel 100
                          (logger (InfoChannelFound (name planningChannel) (cid planningChannel)) w0) of
                     (Inl e, w1) \<Rightarrow> (Inl e, w1)
                   | (Inr msgs, w1) \<Rightarrow>
                       (case slotLoop rem msgs slots [] (logger (InfoMessagesFetched (length msgs)) w1) of
                          (Inl e, w2) \<Rightarrow> (Inl e, w2)
                        | (Inr usersSet, w2) \<Rightarrow>
                            (case resolveLoop rem usersSet []
                                    (logger (InfoTotalUsers (length usersSet)) w2) of
                               (users, w3) \<Rightarrow> (Inr users, w3))))))"

section \<open>The status manager: publish, update, refresh\<close>

text \<open>
  The manager keeps the status, the last actor and a reference to the one tracked status
  message. What a status message shows is rendered from the manager's state by
  \<^verbatim>\<open>buildEmbed\<close> and \<^verbatim>\<open>buildActionRow\<close>. The platform's side is the list of status
  messages that exist, with the channel each is in and what each shows.
\<close>

datatype GymStatus = Ouverte | Fermee

record rendering =
  shownStatus :: GymStatus
  shownLastAction :: string
  embedColor :: nat
  imageUrl :: string
  openDisabled :: bool
  closeDisabled :: bool

record messageRef =
  refId :: snowflake
  refChannel :: snowflake
  refChannelType :: ChannelType

record posted =
  postedRef :: messageRef
  shown :: rendering

datatype statusCall =
    MsgDelete snowflake
  | MsgSend snowflake rendering
  | MsgEdit snowflake rendering

datatype statusLog =
    WarnDeleteFailed
  | WarnNotTextChannel
  | ErrorRefreshFailed
  | InfoStatusUpdated GymStatus string

record manager =
  images :: "GymStatus \<Rightarrow> string"
  status :: GymStatus
  lastActionBy :: "string option"
  statusMessage :: "messageRef option"

record statusWorld =
  existing :: "posted list"
  freshId :: snowflake
  statusCalls :: "statusCall list"
  statusLogs :: "statusLog list"

type_synonym statusRemote = "nat \<Rightarrow> statusCall \<Rightarrow> bool"

text \<open>\<^verbatim>\<open>buildEmbed()\<close> ends with \<^verbatim>\<open>.setImage(this.images[this.status])\<close>, and
  \<^verbatim>\<open>EmbedBuilder.setImage\<close> validates its argument: it throws unless the string parses
  as a URL with the scheme http, https or attachment. The library's URL validation is the
  parameter \<open>accepted\<close>. \<^verbatim>\<open>buildActionRow()\<close> is evaluated after \<^verbatim>\<open>buildEmbed()\<close> and
  does not throw. The result is what the message will show, or \<open>None\<close> when
  \<^verbatim>\<open>setImage\<close> throws.\<close>

type_synonym urlCheck = "string \<Rightarrow> bool"

definition buildEmbedAndRow :: "urlCheck \<Rightarrow> manager \<Rightarrow> rendering option" where
  "buildEmbedAndRow accepted m =
     (if accepted (images m (status m)) then
        Some \<lparr>shownStatus = status m,
              shownLastAction = (case lastActionBy m of None \<Rightarrow> ''N/A'' | Some actor \<Rightarrow> actor),
              embedColor = (if status m = Ouverte then 65280 else 16711680),
              imageUrl = images m (status m),
              openDisabled = (status m = Ouverte),
              closeDisabled = (status m = Fermee)\<rparr>
      else None)"

definition issueStatus :: "statusRemote \<Rightarrow> statusCall \<Rightarrow> statusWorld \<Rightarrow> bool \<times> statusWorld" where
  "issueStatus rem c w =
     (rem (length (statusCalls w)) c, w\<lparr>statusCalls := statusCalls w @ [c]\<rparr>)"

definition statusLogger :: "statusLog \<Rightarrow> statusWorld \<Rightarrow> statusWorld" where
  "statusLogger l w = w\<lparr>statusLogs := statusLogs w @ [l]\<rparr>"

text \<open>\<^verbatim>\<open>message.delete()\<close>, \<^verbatim>\<open>channel.send(...)\<close> and \<^verbatim>\<open>message.edit(...)\<close> on
  the platform's side.\<close>

definition messageDelete :: "statusRemote \<Rightarrow> messageRef \<Rightarrow> statusWorld \<Rightarrow> bool \<times> statusWorld" where
  "messageDelete rem r w =
     (case issueStatus rem (MsgDelete (refId r)) w of
        (False, w1) \<Rightarrow> (False, w1)
      | (True, w1) \<Rightarrow>
          (True, w1\<lparr>existing := filter (\<lambda>p. refId (postedRef p) \<noteq> refId r) (existing w1)\<rparr>))"

definition statusSend ::
  "statusRemote \<Rightarrow> snowflake \<Rightarrow> ChannelType \<Rightarrow> rendering \<Rightarrow> statusWorld
     \<Rightarrow> messageRef option \<times> statusWorld" where
  "statusSend rem ch ty body w =
     (case issueStatus rem (MsgSend ch body) w of
        (False, w1) \<Rightarrow> (None, w1)
      | (True, w1) \<Rightarrow>
          (let r = \<lparr>refId = freshId w1, refChannel = ch, refChannelType = ty\<rparr>
           in (Some r,
               w1\<lparr>existing := existing w1 @ [\<lparr>postedRef = r, shown = body\<rparr>],
                  freshId := Suc (freshId w1)\<rparr>)))"

definition messageEdit ::
  "statusRemote \<Rightarrow> messageRef \<Rightarrow> rendering \<Rightarrow> statusWorld \<Rightarrow> bool \<times> statusWorld" where
  "messageEdit rem r body w =
     (case issueStatus rem (MsgEdit (refId r) body) w of
        (False, w1) \<Rightarrow> (False, w1)
      | (True, w1) \<Rightarrow>
          (True,
           w1\<lparr>existing := map (\<lambda>p. if refId (postedRef p) = refId r then p\<lparr>shown := body\<rparr> else p)
                               (existing w1)\<rparr>))"

text \<open>\<^verbatim>\<open>publishStatus(channel)\<close> (gymStatusManager.ts, lines 98 to 114, the same in
  both variants): the deletion of a tracked message is guarded; the embed is built when
  the argument of \<^verbatim>\<open>channel.send\<close> is evaluated, after the deletion, and neither that nor
  the send is guarded. The result is the sent message, or \<open>None\<close> when the call throws:
  \<^verbatim>\<open>setImage\<close> threw, and no send was issued, or the send was rejected.\<close>

definition publishStatus ::
  "urlCheck \<Rightarrow> statusRemote \<Rightarrow> snowflake \<Rightarrow> manager \<Rightarrow> statusWorld
     \<Rightarrow> messageRef option \<times> manager \<times> statusWorld" where
  "publishStatus accepted rem ch m w =
     (let w1 = (case statusMessage m of
                  None \<Rightarrow> w
                | Some old \<Rightarrow>
                    (case messageDelete rem old w of
                       (True, w') \<Rightarrow> w'
                     | (False, w') \<Rightarrow> statusLogger WarnDeleteFailed w'))
      in case buildEmbedAndRow accepted m of
           None \<Rightarrow> (None, m, w1)
         | Some body \<Rightarrow>
             (case statusSend rem ch GuildText body w1 of
                (None, w2) \<Rightarrow> (None, m, w2)
              | (Some msg, w2) \<Rightarrow> (Some msg, m\<lparr>statusMessage := Some msg\<rparr>, w2)))"

definition updateStatus :: "GymStatus \<Rightarrow> string \<Rightarrow> manager \<Rightarrow> statusWorld \<Rightarrow> manager \<times> statusWorld" where
  "updateStatus newStatus actor m w =
     (m\<lparr>status := newStatus, lastActionBy := Some actor\<rparr>,
      statusLogger (InfoStatusUpdated newStatus actor) w)"

text \<open>\<^verbatim>\<open>refreshStatusMessage()\<close> of the TypeScript source (gymStatusManager.ts, lines
  122 to 135): one guarded edit of the tracked message. The embed is built inside the
  guard, before the edit is issued: when \<^verbatim>\<open>setImage\<close> throws, the error is logged and no
  call is issued.\<close>

definition refreshStatusMessage_ts ::
  "urlCheck \<Rightarrow> statusRemote \<Rightarrow> manager \<Rightarrow> statusWorld \<Rightarrow> manager \<times> statusWorld" where
  "refreshStatusMessage_ts accepted rem m w =
     (case statusMessage m of
        None \<Rightarrow> (m, w)
      | Some tracked \<Rightarrow>
          (case buildEmbedAndRow accepted m of
             None \<Rightarrow> (m, statusLogger ErrorRefreshFailed w)
           | Some body \<Rightarrow>
               (case messageEdit rem tracked body w of
                  (True, w1) \<Rightarrow> (m, w1)
                | (False, w1) \<Rightarrow> (m, statusLogger ErrorRefreshFailed w1))))"

text \<open>\<^verbatim>\<open>refreshStatusMessage()\<close> of the compiled variant (the compiled
  gymStatusManager.js, lines 93 to 123): in a text channel, a guarded deletion of the
  tracked message, then a send whose result becomes the tracked message. The embed is
  built after the deletion; a throwing \<^verbatim>\<open>setImage\<close> and a rejected send are caught by the
  outer guard and leave the reference as it was.\<close>

definition refreshStatusMessage_js ::
  "urlCheck \<Rightarrow> statusRemote \<Rightarrow> manager \<Rightarrow> statusWorld \<Rightarrow> manager \<times> statusWorld" where
  "refreshStatusMessage_js accepted rem m w =
     (case statusMessage m of
        None \<Rightarrow> (m, w)
      | Some oldMessage \<Rightarrow>
          (if refChannelType oldMessage \<noteq> GuildText then (m, statusLogger WarnNotTextChannel w)
           else
             (let w1 = (case messageDelete rem oldMessage w of
                          (True, w') \<Rightarrow> w'
                        | (False, w') \<Rightarrow> statusLogger WarnDeleteFailed w')
              in case buildEmbedAndRow accepted m of
                   None \<Rightarrow> (m, statusLogger ErrorRefreshFailed w1)
                 | Some body \<Rightarrow>
                     (case statusSend rem (refChannel oldMessage) GuildText body w1 of
                        (None, w2) \<Rightarrow> (m, statusLogger ErrorRefreshFailed w2)
                      | (Some newMessage, w2) \<Rightarrow> (m\<lparr>statusMessage := Some newMessage\<rparr>, w2)))))"

section \<open>The rules service: handleAcceptRules\<close>

text \<open>
  The interaction carries the pressing user and, unless it comes from outside a guild,
  the guild's role cache. The platform's side is the list of role grants made and the
  lines of the acceptance log file.
\<close>

record role =
  roleId :: snowflake
  roleName :: string

record account =
  accountId :: snowflake
  username :: string
  tag :: string

record buttonInteraction =
  guildRoles :: "role list option"
  presser :: account

datatype replyText =
    NoGuild
  | RoleNotFound string
  | Thanks string string
  | GenericError

datatype rulesCall =
    Reply replyText
  | DeferReply
  | MemberFetch snowflake
  | RolesAdd snowflake snowflake
  | AppendFile string account
  | EditReply replyText

datatype rulesLog =
    ErrorRoleNotFound string
  | ErrorAddRole
  | ErrorLogWrite
  | InfoAccepted string

text \<open>Of the configuration, the handler reads the name of the member role, the path
  of the log file and the time zone (\<^verbatim>\<open>config.timezone\<close>). Of the time zone the model
  keeps whether the runtime knows it: \<^verbatim>\<open>toLocaleString\<close> throws a \<^verbatim>\<open>RangeError\<close> for a
  zone it does not know.\<close>

record rulesConfig =
  memberRoleName :: string
  logFile :: string
  timezoneKnown :: bool

record rulesWorld =
  grants :: "(snowflake \<times> snowflake) list"
  signatures :: "account list"
  rulesCalls :: "rulesCall list"
  rulesLogs :: "rulesLog list"

type_synonym rulesRemote = "nat \<Rightarrow> rulesCall \<Rightarrow> bool"

datatype rulesError = Thrown rulesCall | InvalidTimeZone

definition issueRules :: "rulesRemote \<Rightarrow> rulesCall \<Rightarrow> rulesWorld \<Rightarrow> bool \<times> rulesWorld" where
  "issueRules rem c w = (rem (length (rulesCalls w)) c, w\<lparr>rulesCalls := rulesCalls w @ [c]\<rparr>)"

definition rulesLogger :: "rulesLog \<Rightarrow> rulesWorld \<Rightarrow> rulesWorld" where
  "rulesLogger l w = w\<lparr>rulesLogs := rulesLogs w @ [l]\<rparr>"

text \<open>\<^verbatim>\<open>findRole\<close> (lines 89 to 92): the first role with the configured name.\<close>

definition findRole :: "rulesConfig \<Rightarrow> role list \<Rightarrow> role option" where
  "findRole cfg roles = find (\<lambda>candidate. roleName candidate = memberRoleName cfg) roles"

text \<open>\<^verbatim>\<open>logSignature\<close> (lines 100 to 119): the date is formatted in the configured
  time zone, outside the guard, so an unknown zone makes \<^verbatim>\<open>logSignature\<close> throw before
  anything is written; then one line is appended to the log file, and a rejected write is
  caught and only reported to the logger. The result is \<open>None\<close> when \<^verbatim>\<open>logSignature\<close>
  returns and the error when it throws.\<close>

definition logSignature ::
  "rulesRemote \<Rightarrow> rulesConfig \<Rightarrow> buttonInteraction \<Rightarrow> rulesWorld
     \<Rightarrow> rulesError option \<times> rulesWorld" where
  "logSignature rem cfg interaction w =
     (if \<not> timezoneKnown cfg then (Some InvalidTimeZone, w)
      else
        (case issueRules rem (AppendFile (logFile cfg) (presser interaction)) w of
           (True, w1) \<Rightarrow> (None, w1\<lparr>signatures := signatures w1 @ [presser interaction]\<rparr>)
         | (False, w1) \<Rightarrow> (None, rulesLogger ErrorLogWrite w1)))"

text \<open>The handler of the guarded block's failures (lines 74 to 79), which are a
  rejected member lookup, a rejected grant, a throwing \<^verbatim>\<open>logSignature\<close> and a rejected
  confirmation: the report itself is not guarded.\<close>

definition reportFailure :: "rulesRemote \<Rightarrow> rulesWorld \<Rightarrow> rulesError option \<times> rulesWorld" where
  "reportFailure rem w =
     (case issueRules rem (EditReply GenericError) (rulesLogger ErrorAddRole w) of
        (True, w1) \<Rightarrow> (None, w1)
      | (False, w1) \<Rightarrow> (Some (Thrown (EditReply GenericError)), w1))"

text \<open>\<^verbatim>\<open>handleAcceptRules\<close> (lines 41 to 80). The result is \<open>None\<close> when the
  handler returns and the error when it throws.\<close>

definition handleAcceptRules ::
  "rulesRemote \<Rightarrow> rulesConfig \<Rightarrow> buttonInteraction \<Rightarrow> rulesWorld
     \<Rightarrow> rulesError option \<times> rulesWorld" where
  "handleAcceptRules rem cfg interaction w =
     (case guildRoles interaction of
        None \<Rightarrow>
          (case issueRules rem (Reply NoGuild) w of
             (True, w1) \<Rightarrow> (None, w1)
           | (False, w1) \<Rightarrow> (Some (Thrown (Reply NoGuild)), w1))
      | Some roles \<Rightarrow>
          (case findRole cfg roles of
             None \<Rightarrow>
               (case issueRules rem (Reply (RoleNotFound (memberRoleName cfg)))
                       (rulesLogger (ErrorRoleNotFound (memberRoleName cfg)) w) of
                  (True, w1) \<Rightarrow> (None, w1)
                | (False, w1) \<Rightarrow> (Some (Thrown (Reply (RoleNotFound (memberRoleName cfg)))), w1))
           | Some r \<Rightarrow>
               (case issueRules rem DeferReply w of
                  (False, w1) \<Rightarrow> (Some (Thrown DeferReply), w1)
                | (True, w1) \<Rightarrow>
                    (case issueRules rem (MemberFetch (accountId (presser interaction))) w1 of
                       (False, w2) \<Rightarrow> reportFailure rem w2
                     | (True, w2) \<Rightarrow>
                         (case issueRules rem
                                 (RolesAdd (accountId (presser interaction)) (roleId r)) w2 of
                            (False, w3) \<Rightarrow> reportFailure rem w3
                          | (True, w3) \<Rightarrow>
                              (case logSignature rem cfg interaction
                                      (w3\<lparr>grants := grants w3 @
                                            [(accountId (presser interaction), roleId r)]\<rparr>) of
                                 (Some e, w4) \<Rightarrow> reportFailure rem w4
                               | (None, w4) \<Rightarrow>
                                   (case issueRules rem
                                           (EditReply (Thanks (username (presser interaction))
                                                         (roleName r))) w4 of
                                      (False, w5) \<Rightarrow> reportFailure rem w5
                                    | (True, w5) \<Rightarrow>
                                        (None,
                                         rulesLogger (InfoAccepted (tag (presser interaction)))
                                           w5))))))))"

section \<open>Notions used to state the reconciler's properties\<close>

text \<open>A text channel under the planning category, as all three lookups of
  \<^verbatim>\<open>syncPlanning\<close> test it.\<close>

definition inPlanning :: "channel \<Rightarrow> channel \<Rightarrow> bool" where
  "inPlanning category c = (parentId c = Some (cid category) \<and> ctype c = GuildText)"

text \<open>The actual set: the names of the text channels under the category.\<close>

definition planningNames :: "channel \<Rightarrow> world \<Rightarrow> string set" where
  "planningNames category w = set (map name (filter (inPlanning category) (channels w)))"

text \<open>The desired set: the slugs of the days \<open>today + i\<close> for the offsets \<open>i\<close> of
  the window, \<open>0 \<le> i < daysAhead\<close>.\<close>

definition desiredSlugs :: "render \<Rightarrow> day \<Rightarrow> real \<Rightarrow> string set" where
  "desiredSlugs fmt today ahead = set (map (\<lambda>i. slugOf fmt (today + int i)) [0 ..< nat \<lceil>ahead\<rceil>])"

text \<open>The calls a run issued, and what it deleted and created, read off the record of
  calls.\<close>

fun isDelete :: "call \<Rightarrow> bool" where
  "isDelete (ChannelDelete i) = True"
| "isDelete c = False"

fun deletedIds :: "call list \<Rightarrow> snowflake list" where
  "deletedIds [] = []"
| "deletedIds (ChannelDelete i # cs) = i # deletedIds cs"
| "deletedIds (c # cs) = deletedIds cs"

fun createdNames :: "call list \<Rightarrow> string list" where
  "createdNames [] = []"
| "createdNames (ChannelCreate n # cs) = n # createdNames cs"
| "createdNames (c # cs) = createdNames cs"

definition issued :: "world \<Rightarrow> world \<Rightarrow> call list" where
  "issued w w' = drop (length (calls w)) (calls w')"

text \<open>The desired names that have no channel yet, each once, in window order.\<close>

fun missingNames :: "string set \<Rightarrow> string list \<Rightarrow> string list" where
  "missingNames present [] = []"
| "missingNames present (n # ns) =
     (if n \<in> present then missingNames present ns else n # missingNames (insert n present) ns)"

text \<open>What the reconciler reads of a channel; sending a message or reacting leaves it
  unchanged.\<close>

definition shape :: "channel \<Rightarrow> snowflake \<times> string \<times> snowflake option \<times> ChannelType" where
  "shape c = (cid c, name c, parentId c, ctype c)"

fun isSeeding :: "call \<Rightarrow> bool" where
  "isSeeding (MessageSend c b) = True"
| "isSeeding (MessageReact m e) = True"
| "isSeeding c = False"

definition outOfWindow :: "string set \<Rightarrow> channel list \<Rightarrow> channel list" where
  "outOfWindow allowedNames chans = filter (\<lambda>c. name c \<notin> allowedNames) chans"

text \<open>The calls of a run split into the deletions it starts with and the rest.\<close>

definition deletionPhase :: "call list \<Rightarrow> call list" where
  "deletionPhase xs = takeWhile isDelete xs"

definition creationPhase :: "call list \<Rightarrow> call list" where
  "creationPhase xs = dropWhile isDelete xs"

section \<open>A sample guild\<close>

text \<open>
  Monday 3 November 2025, day 20395, with a window of two days: the category holds last
  Friday's channel and today's; Tuesday's channel is missing. One time slot is
  configured. \<open>sampleRender\<close> stands for the locale's rendering of the three days the
  samples use.
\<close>

definition sampleToday :: day where
  "sampleToday = 20395"

definition sampleRender :: render where
  "sampleRender d =
     (if d = 20395 then ''Lundi 3 novembre'' else if d = 20396 then ''Mardi 4 novembre''
      else ''Mercredi 5 novembre'')"

definition sampleCategory :: channel where
  "sampleCategory =
     \<lparr>cid = 1, name = ''Planning'', parentId = None, ctype = GuildCategory, messages = []\<rparr>"

definition sampleConfig :: planningConfig where
  "sampleConfig =
     \<lparr>categoryName = ''Planning'', daysAhead = 2, timeSlots = [''18:00 - 20:00'']\<rparr>"

definition sampleWorld :: world where
  "sampleWorld =
     \<lparr>channels =
        [sampleCategory,
         \<lparr>cid = 2, name = ''vendredi-31-octobre'', parentId = Some 1, ctype = GuildText,
            messages = []\<rparr>,
         \<lparr>cid = 3, name = ''lundi-3-novembre'', parentId = Some 1, ctype = GuildText,
            messages = []\<rparr>],
      nextId = 10, clientUser = \<lparr>uid = 99, bot = True\<rparr>, userCache = [], calls = [], logs = []\<rparr>"

definition allSucceed :: remote where
  "allSucceed k c = True"

definition noneSucceed :: remote where
  "noneSucceed k c = False"

text \<open>The sample guild after one reconcile pass in which every call succeeds.\<close>

definition sampleSynced :: world where
  "sampleSynced =
     \<lparr>channels =
        [sampleCategory,
         \<lparr>cid = 3, name = ''lundi-3-novembre'', parentId = Some 1, ctype = GuildText,
            messages = []\<rparr>,
         \<lparr>cid = 10, name = ''mardi-4-novembre'', parentId = Some 1, ctype = GuildText,
            messages =
              [\<lparr>messageId = 11, content = [], embeds = [''Planning pour mardi 4 novembre''],
                 reactions = []\<rparr>,
               \<lparr>messageId = 12, content = ''18:00 - 20:00'', embeds = [],
                 reactions = [(checkMark, [\<lparr>uid = 99, bot = True\<rparr>])]\<rparr>]\<rparr>],
      nextId = 13, clientUser = \<lparr>uid = 99, bot = True\<rparr>, userCache = [],
      calls =
        [ChannelDelete 2, ChannelCreate ''mardi-4-novembre'', MessageSend 10 [],
         MessageSend 10 ''18:00 - 20:00'', MessageReact 12 checkMark],
      logs =
        [InfoDeleteOutOfRange ''vendredi-31-octobre'', InfoCreateChannel ''mardi-4-novembre'']\<rparr>"

text \<open>A configuration whose window size is negative, what the loader makes of the
  environment value \<^verbatim>\<open>-1\<close>, and the sample guild after a pass under it.\<close>

definition negativeConfig :: planningConfig where
  "negativeConfig =
     \<lparr>categoryName = ''Planning'', daysAhead = - 1, timeSlots = [''18:00 - 20:00'']\<rparr>"

definition sampleToNumber :: "string \<Rightarrow> jsNumber" where
  "sampleToNumber s = (if s = ''-1'' then Finite (- 1) else NaN)"

definition sampleEmptied :: world where
  "sampleEmptied =
     \<lparr>channels = [sampleCategory],
      nextId = 10, clientUser = \<lparr>uid = 99, bot = True\<rparr>, userCache = [],
      calls = [ChannelDelete 2, ChannelDelete 3],
      logs =
        [InfoDeleteOutOfRange ''vendredi-31-octobre'', InfoDeleteOutOfRange ''lundi-3-novembre'']\<rparr>"

section \<open>Notions used to state the correlator's properties\<close>

text \<open>The reaction state of a message: the users behind its affirmative reaction. What
  one listing request returns of them: the first 100. The message located for a slot is
  the first one with exactly that content among the fetched ones; \<open>reactors\<close> are the
  users listed for the located messages of the relevant slots, \<open>signedUp\<close> the non-bot
  ones among them.\<close>

definition reactorsOf :: "message \<Rightarrow> user list" where
  "reactorsOf m = (case map_of (reactions m) checkMark of None \<Rightarrow> [] | Some us \<Rightarrow> us)"

definition listed :: "message \<Rightarrow> user list" where
  "listed m = take 100 (reactorsOf m)"

definition reactors :: "message list \<Rightarrow> string list \<Rightarrow> user list" where
  "reactors msgs slots =
     concat (map (\<lambda>t. case find (\<lambda>m. content m = t) msgs of
                          None \<Rightarrow> [] | Some m \<Rightarrow> listed m) slots)"

definition signedUp :: "message list \<Rightarrow> string list \<Rightarrow> user list" where
  "signedUp msgs slots = filter (\<lambda>u. \<not> bot u) (reactors msgs slots)"

text \<open>The ids the two loops collect, without the world: the non-bot users of a listing
  added to the set, slot after slot.\<close>

fun addIds :: "user list \<Rightarrow> snowflake list \<Rightarrow> snowflake list" where
  "addIds [] usersSet = usersSet"
| "addIds (u # us) usersSet =
     (if \<not> bot u then addIds us (setAdd (uid u) usersSet) else addIds us usersSet)"

fun collect :: "message list \<Rightarrow> string list \<Rightarrow> snowflake list \<Rightarrow> snowflake list" where
  "collect msgs [] usersSet = usersSet"
| "collect msgs (t # ts) usersSet =
     collect msgs ts
       (case find (\<lambda>m. content m = t) msgs of
          None \<Rightarrow> usersSet
        | Some m \<Rightarrow> addIds (listed m) usersSet)"

text \<open>The messages the correlator works on: the 100 most recent ones of today's
  planning channel, newest first; none when the category or the channel is absent.\<close>

definition todayMessages :: "planningConfig \<Rightarrow> render \<Rightarrow> day \<Rightarrow> world \<Rightarrow> message list" where
  "todayMessages cfg fmt today w =
     (case find (\<lambda>c. ctype c = GuildCategory \<and> name c = categoryName cfg) (channels w) of
        None \<Rightarrow> []
      | Some cat \<Rightarrow>
          (case find (\<lambda>c. parentId c = Some (cid cat) \<and> ctype c = GuildText \<and>
                           name c = todayChannelName fmt today) (channels w) of
             None \<Rightarrow> []
           | Some ch \<Rightarrow> take 100 (rev (messages ch))))"

section \<open>A sample planning channel with reactions\<close>

text \<open>
  Wednesday 5 November 2025, day 20397, the day of the reminder for the black bin. Today's
  channel holds the header and two slot messages. Besides the client's own seeded
  reaction, users 1 and 2 reacted to the first slot and user 2 to the second.
\<close>

definition reminderToday :: day where
  "reminderToday = 20397"

definition relevantSlots :: "string list" where
  "relevantSlots = [''18:00 - 20:00'', ''20:00 - 22:00'']"

definition userB :: user where
  "userB = \<lparr>uid = 2, bot = False\<rparr>"

definition slotA :: message where
  "slotA =
     \<lparr>messageId = 12, content = ''18:00 - 20:00'', embeds = [],
        reactions = [(checkMark, [\<lparr>uid = 99, bot = True\<rparr>, \<lparr>uid = 1, bot = False\<rparr>, userB])]\<rparr>"

definition slotB :: message where
  "slotB =
     \<lparr>messageId = 13, content = ''20:00 - 22:00'', embeds = [],
        reactions = [(checkMark, [\<lparr>uid = 99, bot = True\<rparr>, userB])]\<rparr>"

definition reminderWorld :: world where
  "reminderWorld =
     \<lparr>channels =
        [sampleCategory,
         \<lparr>cid = 3, name = ''mercredi-5-novembre'', parentId = Some 1, ctype = GuildText,
            messages =
              [\<lparr>messageId = 11, content = [], embeds = [''Planning pour mercredi 5 novembre''],
                 reactions = []\<rparr>,
               slotA, slotB]\<rparr>],
      nextId = 20, clientUser = \<lparr>uid = 99, bot = True\<rparr>, userCache = [], calls = [], logs = []\<rparr>"

text \<open>
  The same channel on a busy day: behind the affirmative reaction of each of the two
  slot messages stand the client's own user, 99 humans with the ids 100 to 198, and a
  late user with the id 500, in the platform's order: 101 users, one more than a listing
  returns.
\<close>

definition humans :: "user list" where
  "humans = map (\<lambda>i. \<lparr>uid = i, bot = False\<rparr>) [100 ..< 199]"

definition lateUser :: user where
  "lateUser = \<lparr>uid = 500, bot = False\<rparr>"

definition crowdedA :: message where
  "crowdedA =
     \<lparr>messageId = 12, content = ''18:00 - 20:00'', embeds = [],
        reactions = [(checkMark, \<lparr>uid = 99, bot = True\<rparr> # humans @ [lateUser])]\<rparr>"

definition crowdedB :: message where
  "crowdedB =
     \<lparr>messageId = 13, content = ''20:00 - 22:00'', embeds = [],
        reactions = [(checkMark, \<lparr>uid = 99, bot = True\<rparr> # humans @ [lateUser])]\<rparr>"

definition crowdedWorld :: world where
  "crowdedWorld =
     \<lparr>channels =
        [sampleCategory,
         \<lparr>cid = 3, name = ''mercredi-5-novembre'', parentId = Some 1, ctype = GuildText,
            messages =
              [\<lparr>messageId = 11, content = [], embeds = [''Planning pour mercredi 5 novembre''],
                 reactions = []\<rparr>,
               crowdedA, crowdedB]\<rparr>],
      nextId = 20, clientUser = \<lparr>uid = 99, bot = True\<rparr>, userCache = [], calls = [], logs = []\<rparr>"

text \<open>A guild without any channel, so without planning category.\<close>

definition emptyGuild :: world where
  "emptyGuild =
     \<lparr>channels = [], nextId = 1, clientUser = \<lparr>uid = 99, bot = True\<rparr>, userCache = [], calls = [], logs = []\<rparr>"

section \<open>Notions and a sample for the status manager\<close>

text \<open>The calls a step of the status manager issued.\<close>

definition issuedStatus :: "statusWorld \<Rightarrow> statusWorld \<Rightarrow> statusCall list" where
  "issuedStatus w w' = drop (length (statusCalls w)) (statusCalls w')"

text \<open>
  A sample: the manager starts closed with the default images of the configuration,
  publishes its status in the text channel 7 (the message gets the id 5), and a press of
  the open button by Ana updates the state. The next step is the refresh. The sample's
  URL check accepts the strings that start with one of the three schemes.
\<close>

definition openUrl :: string where
  "openUrl = ''https://cdn.discordapp.com/attachments/1254003995454996522/1278085289893695559/open.png''"

definition closeUrl :: string where
  "closeUrl = ''https://cdn.discordapp.com/attachments/1254003995454996522/1278085289054572575/close.png''"

definition sampleImages :: "GymStatus \<Rightarrow> string" where
  "sampleImages s = (if s = Ouverte then openUrl else closeUrl)"

definition sampleUrlCheck :: urlCheck where
  "sampleUrlCheck s =
     (take 7 s = ''http://'' \<or> take 8 s = ''https://'' \<or> take 13 s = ''attachment://'')"

definition closedManager :: manager where
  "closedManager =
     \<lparr>images = sampleImages, status = Fermee, lastActionBy = None, statusMessage = None\<rparr>"

definition startWorld :: statusWorld where
  "startWorld = \<lparr>existing = [], freshId = 5, statusCalls = [], statusLogs = []\<rparr>"

definition noneSucceedStatus :: statusRemote where
  "noneSucceedStatus k c = False"

definition statusAllSucceed :: statusRemote where
  "statusAllSucceed k c = True"

definition closedRendering :: rendering where
  "closedRendering =
     \<lparr>shownStatus = Fermee, shownLastAction = ''N/A'', embedColor = 16711680,
      imageUrl = closeUrl, openDisabled = False, closeDisabled = True\<rparr>"

definition openRendering :: rendering where
  "openRendering =
     \<lparr>shownStatus = Ouverte, shownLastAction = ''Ana'', embedColor = 65280,
      imageUrl = openUrl, openDisabled = True, closeDisabled = False\<rparr>"

definition trackedRef :: messageRef where
  "trackedRef = \<lparr>refId = 5, refChannel = 7, refChannelType = GuildText\<rparr>"

definition repostedRef :: messageRef where
  "repostedRef = \<lparr>refId = 6, refChannel = 7, refChannelType = GuildText\<rparr>"

definition openedManager :: manager where
  "openedManager =
     \<lparr>images = sampleImages, status = Ouverte, lastActionBy = Some ''Ana'',
      statusMessage = Some trackedRef\<rparr>"

definition publishedWorld :: statusWorld where
  "publishedWorld =
     \<lparr>existing = [\<lparr>postedRef = trackedRef, shown = closedRendering\<rparr>], freshId = 6,
      statusCalls = [MsgSend 7 closedRendering],
      statusLogs = [InfoStatusUpdated Ouverte ''Ana'']\<rparr>"

text \<open>
  The same run with a configuration whose image for the open status is a file name, not
  a URL: the closed status is published, the update to open is recorded, and the refresh
  has to build an embed that \<^verbatim>\<open>setImage\<close> refuses.
\<close>

definition brokenImages :: "GymStatus \<Rightarrow> string" where
  "brokenImages s = (if s = Ouverte then ''open.png'' else closeUrl)"

definition brokenManager :: manager where
  "brokenManager =
     \<lparr>images = brokenImages, status = Ouverte, lastActionBy = Some ''Ana'',
      statusMessage = Some trackedRef\<rparr>"

section \<open>Notions and samples for the rules service\<close>

text \<open>The role the handler looks up, and the calls a run of the handler issued.\<close>

definition memberRole :: "rulesConfig \<Rightarrow> buttonInteraction \<Rightarrow> role option" where
  "memberRole cfg interaction =
     (case guildRoles interaction of None \<Rightarrow> None | Some roles \<Rightarrow> findRole cfg roles)"

definition issuedRules :: "rulesWorld \<Rightarrow> rulesWorld \<Rightarrow> rulesCall list" where
  "issuedRules w w' = drop (length (rulesCalls w)) (rulesCalls w')"

text \<open>
  Samples: Ana presses the accept button in a guild that has the member role, and in
  one that has not; a platform on which every call succeeds, one that rejects the member
  lookup and one that rejects the role grant; and the four worlds the handler leaves.
\<close>

definition sampleRulesConfig :: rulesConfig where
  "sampleRulesConfig =
     \<lparr>memberRoleName = ''Membre'', logFile = ''signatures_log.txt'', timezoneKnown = True\<rparr>"

definition ana :: account where
  "ana = \<lparr>accountId = 42, username = ''ana'', tag = ''ana#0001''\<rparr>"

definition memberRoleSample :: role where
  "memberRoleSample = \<lparr>roleId = 8, roleName = ''Membre''\<rparr>"

definition pressWithRole :: buttonInteraction where
  "pressWithRole =
     \<lparr>guildRoles = Some [\<lparr>roleId = 7, roleName = ''Admin''\<rparr>, memberRoleSample], presser = ana\<rparr>"

definition pressWithoutRole :: buttonInteraction where
  "pressWithoutRole = \<lparr>guildRoles = Some [\<lparr>roleId = 7, roleName = ''Admin''\<rparr>], presser = ana\<rparr>"

definition emptyRulesWorld :: rulesWorld where
  "emptyRulesWorld = \<lparr>grants = [], signatures = [], rulesCalls = [], rulesLogs = []\<rparr>"

definition rulesAllSucceed :: rulesRemote where
  "rulesAllSucceed k c = True"

fun rejectMemberFetch :: rulesRemote where
  "rejectMemberFetch k (MemberFetch u) = False"
| "rejectMemberFetch k c = True"

fun rejectRolesAdd :: rulesRemote where
  "rejectRolesAdd k (RolesAdd u r) = False"
| "rejectRolesAdd k c = True"

definition afterRoleMissing :: rulesWorld where
  "afterRoleMissing =
     \<lparr>grants = [], signatures = [], rulesCalls = [Reply (RoleNotFound ''Membre'')],
      rulesLogs = [ErrorRoleNotFound ''Membre'']\<rparr>"

definition afterFetchRejected :: rulesWorld where
  "afterFetchRejected =
     \<lparr>grants = [], signatures = [],
      rulesCalls = [DeferReply, MemberFetch 42, EditReply GenericError],
      rulesLogs = [ErrorAddRole]\<rparr>"

definition afterAddRejected :: rulesWorld where
  "afterAddRejected =
     \<lparr>grants = [], signatures = [],
      rulesCalls = [DeferReply, MemberFetch 42, RolesAdd 42 8, EditReply GenericError],
      rulesLogs = [ErrorAddRole]\<rparr>"

definition afterAccepted :: rulesWorld where
  "afterAccepted =
     \<lparr>grants = [(42, 8)], signatures = [ana],
      rulesCalls = [DeferReply, MemberFetch 42, RolesAdd 42 8,
                    AppendFile ''signatures_log.txt'' ana, EditReply (Thanks ''ana'' ''Membre'')],
      rulesLogs = [InfoAccepted ''ana#0001'']\<rparr>"

section \<open>Properties of the planning window\<close>

text \<open>What \<open>replaceWhitespace\<close> does to a string: no whitespace is left, a stretch
  without whitespace is kept as it is, and a whole run of whitespace becomes one
  hyphen.\<close>

lemma replaceWhitespace_no_whitespace:
  "c \<in> set (replaceWhitespace s) \<Longrightarrow> \<not> isWhitespace c"
proof (induction s arbitrary: c rule: replaceWhitespace.induct)
  case 1
  then show ?case by simp
next
  case (2 d ds)
  have hyphen: "\<not> isWhitespace CHR ''-''"
    by (simp add: isWhitespace_def)
  from 2 hyphen show ?case
    by (cases "isWhitespace d") auto
qed

lemma replaceWhitespace_word:
  "\<forall>c \<in> set u. \<not> isWhitespace c \<Longrightarrow> replaceWhitespace (u @ v) = u @ replaceWhitespace v"
  by (induction u) auto

lemma replaceWhitespace_run:
  assumes "ws \<noteq> []" and "\<forall>c \<in> set ws. isWhitespace c"
    and "v = [] \<or> \<not> isWhitespace (hd v)"
  shows "replaceWhitespace (ws @ v) = CHR ''-'' # replaceWhitespace v"
proof -
  from assms(1) obtain c cs where ws: "ws = c # cs"
    by (cases ws) auto
  have "dropWhile isWhitespace (cs @ v) = v"
    using assms(2,3) unfolding ws by (cases v) (auto simp: dropWhile_append3)
  then show ?thesis
    using assms(2) unfolding ws by simp
qed

lemma windowLoop_closed:
  "windowLoop fmt today ahead i acc =
     (fst acc @ map (\<lambda>k. mkDesired fmt (today + i + int k))
                  [0 ..< nat \<lceil>ahead - real_of_int i\<rceil>],
      snd acc \<union> (\<lambda>k. slugOf fmt (today + i + int k)) `
                  {0 ..< nat \<lceil>ahead - real_of_int i\<rceil>})"
proof (induction fmt today ahead i acc rule: windowLoop.induct)
  case (1 fmt today ahead i acc)
  show ?case
  proof (cases "real_of_int i < ahead")
    case False
    then have "nat \<lceil>ahead - real_of_int i\<rceil> = 0"
      by (simp add: ceiling_le_iff)
    with False show ?thesis
      by (subst windowLoop.simps) simp
  next
    case True
    define n where "n = nat \<lceil>ahead - real_of_int (i + 1)\<rceil>"
    define acc' where
      "acc' = (fst acc @ [mkDesired fmt (today + i)], insert (slugOf fmt (today + i)) (snd acc))"
    have n: "nat \<lceil>ahead - real_of_int i\<rceil> = Suc n"
      using True unfolding n_def by (simp add: nat_eq_iff) linarith
    have up: "[0 ..< Suc n] = 0 # map Suc [0 ..< n]"
      by (simp add: upt_conv_Cons map_Suc_upt del: upt_Suc)
    have st: "{0 ..< Suc n} = insert 0 (Suc ` {0 ..< n})"
      by (auto simp: image_iff)
    have step: "windowLoop fmt today ahead i acc = windowLoop fmt today ahead (i + 1) acc'"
      using True
      by (subst windowLoop.simps)
         (simp add: Let_def acc'_def mkDesired_def slugOf_def labelOf_def)
    have ih: "windowLoop fmt today ahead (i + 1) acc' =
       (fst acc' @ map (\<lambda>k. mkDesired fmt (today + (i + 1) + int k)) [0 ..< n],
        snd acc' \<union> (\<lambda>k. slugOf fmt (today + (i + 1) + int k)) ` {0 ..< n})"
      using 1[OF True refl refl refl]
      unfolding n_def acc'_def mkDesired_def slugOf_def labelOf_def by simp
    show ?thesis
      unfolding step ih n up st
      by (simp add: acc'_def o_def image_image ac_simps del: image_Suc_atLeastLessThan)
  qed
qed

lemma planningWindow_fst:
  "fst (planningWindow fmt today ahead) =
     map (\<lambda>k. mkDesired fmt (today + int k)) [0 ..< nat \<lceil>ahead\<rceil>]"
  by (simp add: planningWindow_def windowLoop_closed)

lemma planningWindow_snd:
  "snd (planningWindow fmt today ahead) =
     (\<lambda>k. slugOf fmt (today + int k)) ` {0 ..< nat \<lceil>ahead\<rceil>}"
  by (simp add: planningWindow_def windowLoop_closed)

lemma planningWindow_allowed:
  "snd (planningWindow fmt today ahead) =
     set (map channelName (fst (planningWindow fmt today ahead)))"
  by (simp add: planningWindow_fst planningWindow_snd mkDesired_def o_def)

text \<open>What \<open>toLowerCase\<close> does to a string, code unit by code unit: the capital letters
  of Latin-1 move up by 32, every other unit stays; no capital letter is left.\<close>

lemma toLowerCase_units:
  "map of_char (toLowerCase s) =
     map (\<lambda>n::nat. if (65 \<le> n \<and> n \<le> 90) \<or> (192 \<le> n \<and> n \<le> 222 \<and> n \<noteq> 215) then n + 32 else n)
       (map of_char s)"
proof -
  have "of_char (lowerChar c) =
      (let n = of_char c :: nat
       in if (65 \<le> n \<and> n \<le> 90) \<or> (192 \<le> n \<and> n \<le> 222 \<and> n \<noteq> 215) then n + 32 else n)" for c
  proof -
    have "(of_char c :: nat) < 256" by (rule nat_of_char_less_256)
    then show ?thesis
      by (auto simp: lowerChar_def isUpper_def Let_def of_char_of take_bit_eq_mod)
  qed
  then show ?thesis by (simp add: toLowerCase_def Let_def)
qed

lemma toLowerCase_no_upper: "c \<in> set (toLowerCase s) \<Longrightarrow> \<not> isUpper c"
proof -
  have "\<not> isUpper (lowerChar c)" for c
  proof -
    have "(of_char c :: nat) < 256" by (rule nat_of_char_less_256)
    then show ?thesis
      by (auto simp: lowerChar_def isUpper_def Let_def of_char_of take_bit_eq_mod)
  qed
  then show "c \<in> set (toLowerCase s) \<Longrightarrow> \<not> isUpper c"
    by (auto simp: toLowerCase_def)
qed

text \<open>
  C3. For a fixed \<open>today\<close> and window size, the window is a function of its arguments:
  the accumulated array is exactly the sequence whose entry for offset \<open>i\<close> has the
  label \<open>toLowerCase (fmt (today + i))\<close> and the slug obtained from that label by
  replacing every run of whitespace by one hyphen; it has \<open>N\<close> entries for the window
  size \<open>N\<close>, the set of allowed names holds exactly the slugs, and the reminder code
  computes today's slug the same way. The last five conjuncts say what the label and the
  slug are: a label holds no capital letter, lower-casing moves the code units of the
  capital letters up by 32 and keeps the others; a slug holds no whitespace, the
  replacement keeps a stretch without whitespace as it is and turns a whole run of
  whitespace into one hyphen.
\<close>

theorem planningWindow_deterministic:
  "fst (planningWindow fmt today ahead) =
     map (\<lambda>i. \<lparr>channelName = replaceWhitespace (toLowerCase (fmt (today + int i))),
               dayLabel = toLowerCase (fmt (today + int i))\<rparr>)
         [0 ..< nat \<lceil>ahead\<rceil>]
   \<and> length (fst (planningWindow fmt today (real N))) = N
   \<and> snd (planningWindow fmt today ahead) =
       set (map channelName (fst (planningWindow fmt today ahead)))
   \<and> list_all (\<lambda>d. list_all (\<lambda>c. \<not> isWhitespace c) (channelName d))
        (fst (planningWindow fmt today ahead))
   \<and> todayChannelName fmt today = replaceWhitespace (toLowerCase (fmt today))
   \<and> list_all (\<lambda>d. list_all (\<lambda>c. \<not> isUpper c) (dayLabel d))
        (fst (planningWindow fmt today ahead))
   \<and> map of_char (toLowerCase s) =
       map (\<lambda>n::nat. if (65 \<le> n \<and> n \<le> 90) \<or> (192 \<le> n \<and> n \<le> 222 \<and> n \<noteq> 215)
                      then n + 32 else n) (map of_char s)
   \<and> ((\<forall>c \<in> set u. \<not> isWhitespace c) \<longrightarrow>
        replaceWhitespace (u @ v) = u @ replaceWhitespace v)
   \<and> (ws \<noteq> [] \<and> (\<forall>c \<in> set ws. isWhitespace c) \<and> (v = [] \<or> \<not> isWhitespace (hd v)) \<longrightarrow>
        replaceWhitespace (ws @ v) = CHR ''-'' # replaceWhitespace v)"
proof -
  have "list_all (\<lambda>d. list_all (\<lambda>c. \<not> isWhitespace c) (channelName d))
          (fst (planningWindow fmt today ahead))"
    by (auto simp: planningWindow_fst list_all_iff mkDesired_def slugOf_def
             dest: replaceWhitespace_no_whitespace)
  moreover have "list_all (\<lambda>d. list_all (\<lambda>c. \<not> isUpper c) (dayLabel d))
          (fst (planningWindow fmt today ahead))"
    by (auto simp: planningWindow_fst list_all_iff mkDesired_def labelOf_def
             dest: toLowerCase_no_upper)
  moreover have "length (fst (planningWindow fmt today (real N))) = N"
    by (simp add: planningWindow_fst)
  moreover have "fst (planningWindow fmt today ahead) =
     map (\<lambda>i. \<lparr>channelName = replaceWhitespace (toLowerCase (fmt (today + int i))),
               dayLabel = toLowerCase (fmt (today + int i))\<rparr>)
         [0 ..< nat \<lceil>ahead\<rceil>]"
    by (simp add: planningWindow_fst mkDesired_def slugOf_def labelOf_def)
  moreover have "todayChannelName fmt today = replaceWhitespace (toLowerCase (fmt today))"
    by (simp add: todayChannelName_def)
  moreover note planningWindow_allowed [of fmt today ahead] toLowerCase_units [of s]
    replaceWhitespace_word [of u v] replaceWhitespace_run [of ws v]
  ultimately show ?thesis by blast
qed

text \<open>The sample Monday with a window of two days: the rendered labels
  \<open>Lundi 3 novembre\<close> and \<open>Mardi 4 novembre\<close> give the slugs \<open>lundi-3-novembre\<close> and
  \<open>mardi-4-novembre\<close>; a space followed by a tab becomes one hyphen.\<close>

theorem planningWindow_deterministic_witness:
  "fst (planningWindow sampleRender sampleToday 2) =
     [\<lparr>channelName = ''lundi-3-novembre'', dayLabel = ''lundi 3 novembre''\<rparr>,
      \<lparr>channelName = ''mardi-4-novembre'', dayLabel = ''mardi 4 novembre''\<rparr>]
   \<and> snd (planningWindow sampleRender sampleToday 2) = {''lundi-3-novembre'', ''mardi-4-novembre''}
   \<and> todayChannelName sampleRender sampleToday = ''lundi-3-novembre''
   \<and> map of_char (toLowerCase ''Lundi'') = [108, 117, 110, 100, 105 :: nat]
   \<and> list_all (\<lambda>c. \<not> isWhitespace c) ''lundi''
   \<and> replaceWhitespace (''lundi'' @ '' 3 novembre'') = ''lundi'' @ replaceWhitespace '' 3 novembre''
   \<and> [CHR '' '', CHR 0x09] \<noteq> [] \<and> list_all isWhitespace [CHR '' '', CHR 0x09]
   \<and> \<not> isWhitespace (hd ''3 novembre'')
   \<and> replaceWhitespace ([CHR '' '', CHR 0x09] @ ''3 novembre'') =
       CHR ''-'' # replaceWhitespace ''3 novembre''"
proof -
  note th = planningWindow_deterministic [of sampleRender sampleToday 2 _ "''Lundi''"
      "''lundi''" "'' 3 novembre''" "[CHR '' '', CHR 0x09]"]
  note th2 = planningWindow_deterministic [of sampleRender sampleToday 2 _ "''Lundi''"
      "''lundi''" "''3 novembre''" "[CHR '' '', CHR 0x09]"]
  have e0: "replaceWhitespace ''lundi 3 novembre'' = ''lundi-3-novembre''"
    and l0: "toLowerCase (sampleRender sampleToday) = ''lundi 3 novembre''"
    and e1: "replaceWhitespace ''mardi 4 novembre'' = ''mardi-4-novembre''"
    and l1: "toLowerCase (sampleRender (sampleToday + 1)) = ''mardi 4 novembre''"
    by code_simp+
  have up: "[0 ..< nat \<lceil>2::real\<rceil>] = [0, 1]"
    by (simp add: upt_conv_Cons)
  have f: "fst (planningWindow sampleRender sampleToday 2) =
     [\<lparr>channelName = ''lundi-3-novembre'', dayLabel = ''lundi 3 novembre''\<rparr>,
      \<lparr>channelName = ''mardi-4-novembre'', dayLabel = ''mardi 4 novembre''\<rparr>]"
    using th unfolding up by (simp add: e0 l0 e1 l1 del: replaceWhitespace.simps)
  have s: "snd (planningWindow sampleRender sampleToday 2) = {''lundi-3-novembre'', ''mardi-4-novembre''}"
    using th unfolding f by (simp del: replaceWhitespace.simps)
  have t: "todayChannelName sampleRender sampleToday = ''lundi-3-novembre''"
    using th by (simp add: e0 l0 del: replaceWhitespace.simps)
  have lo: "map of_char (toLowerCase ''Lundi'') = [108, 117, 110, 100, 105 :: nat]"
    using th by (simp del: replaceWhitespace.simps)
  have w1: "list_all (\<lambda>c. \<not> isWhitespace c) ''lundi''"
    by (simp add: isWhitespace_def)
  have w2: "list_all isWhitespace [CHR '' '', CHR 0x09]" "\<not> isWhitespace (hd ''3 novembre'')"
    by (simp_all add: isWhitespace_def)
  have r1: "replaceWhitespace (''lundi'' @ '' 3 novembre'') = ''lundi'' @ replaceWhitespace '' 3 novembre''"
    using th w1 by (simp add: list_all_iff del: replaceWhitespace.simps)
  have r2: "replaceWhitespace ([CHR '' '', CHR 0x09] @ ''3 novembre'') =
       CHR ''-'' # replaceWhitespace ''3 novembre''"
    using th2 w2 by (simp add: list_all_iff del: replaceWhitespace.simps)
  from f s t lo w1 w2 r1 r2 show ?thesis by (simp del: replaceWhitespace.simps)
qed

section \<open>Properties of the reconciler\<close>

lemma channelDelete_spec:
  assumes "channelDelete rem c w = (r, w')"
  shows "calls w' = calls w @ [ChannelDelete (cid c)]"
    and "nextId w' = nextId w" and "clientUser w' = clientUser w"
    and "r = None \<Longrightarrow> channels w' = filter (\<lambda>d. cid d \<noteq> cid c) (channels w)"
    and "r \<noteq> None \<Longrightarrow> channels w' = channels w"
  using assms by (auto simp: channelDelete_def issue_def split: if_splits bool.splits)

lemma channelsCreate_spec:
  assumes "channelsCreate rem nm ty parent w = (r, w')"
  shows "calls w' = calls w @ [ChannelCreate nm]"
    and "clientUser w' = clientUser w"
    and "\<And>e. r = Inl e \<Longrightarrow> channels w' = channels w"
    and "\<And>ch. r = Inr ch \<Longrightarrow> ch = \<lparr>cid = nextId w, name = nm, parentId = parent, ctype = ty, messages = []\<rparr>
           \<and> channels w' = channels w @ [ch]"
  using assms by (auto simp: channelsCreate_def issue_def Let_def split: if_splits bool.splits)

lemma planningNames_shape:
  "planningNames category w =
     set (map (\<lambda>s. fst (snd s))
            (filter (\<lambda>s. snd (snd s) = (Some (cid category), GuildText)) (map shape (channels w))))"
  by (simp add: planningNames_def filter_map o_def shape_def inPlanning_def)

lemma planningNames_cong:
  "map shape (channels w) = map shape (channels w') \<Longrightarrow>
     planningNames category w = planningNames category w'"
  by (simp add: planningNames_shape)

lemma channelSend_spec:
  assumes "channelSend rem ch body titles w = (r, w')"
  shows "calls w' = calls w @ [MessageSend ch body]"
    and "map shape (channels w') = map shape (channels w)"
    and "clientUser w' = clientUser w"
  using assms
  by (auto simp: channelSend_def issue_def Let_def shape_def
      split: if_splits bool.splits)

lemma messageReact_spec:
  assumes "messageReact rem msg emoji w = (r, w')"
  shows "calls w' = calls w @ [MessageReact msg emoji]"
    and "map shape (channels w') = map shape (channels w)"
    and "clientUser w' = clientUser w"
  using assms
  by (auto simp: messageReact_def issue_def Let_def shape_def
      split: if_splits bool.splits)

lemma seedSlots_spec:
  "seedSlots rem ch slots w = (r, w') \<Longrightarrow>
     (\<exists>xs. calls w' = calls w @ xs \<and> list_all isSeeding xs) \<and>
     map shape (channels w') = map shape (channels w)"
proof (induction slots arbitrary: w)
  case Nil
  then show ?case by simp
next
  case (Cons slot slots)
  obtain r1 w1 where s1: "channelSend rem (cid ch) slot [] w = (r1, w1)"
    by (cases "channelSend rem (cid ch) slot [] w")
  note a = channelSend_spec[OF s1]
  show ?case
  proof (cases r1)
    case (Inl e)
    with Cons.prems s1 a show ?thesis by auto
  next
    case (Inr msg)
    obtain r2 w2 where s2: "messageReact rem (messageId msg) checkMark w1 = (r2, w2)"
      by (cases "messageReact rem (messageId msg) checkMark w1")
    note b = messageReact_spec[OF s2]
    show ?thesis
    proof (cases r2)
      case (Some e)
      with Cons.prems s1 s2 Inr a b show ?thesis by auto
    next
      case None
      with Cons.prems s1 s2 Inr have "seedSlots rem ch slots w2 = (r, w')" by simp
      from Cons.IH[OF this] a b show ?thesis by auto
    qed
  qed
qed

lemma initializePlanningChannel_spec:
  assumes "initializePlanningChannel rem cfg ch lbl w = (r, w')"
  shows "\<exists>xs. calls w' = calls w @ xs \<and> list_all isSeeding xs"
    and "map shape (channels w') = map shape (channels w)"
proof -
  obtain r1 w1 where s1: "channelSend rem (cid ch) [] [''Planning pour '' @ lbl] w = (r1, w1)"
    by (cases "channelSend rem (cid ch) [] [''Planning pour '' @ lbl] w")
  note a = channelSend_spec[OF s1]
  have "(\<exists>xs. calls w' = calls w @ xs \<and> list_all isSeeding xs) \<and>
     map shape (channels w') = map shape (channels w)"
  proof (cases r1)
    case (Inl e)
    with assms s1 a show ?thesis by (auto simp: initializePlanningChannel_def)
  next
    case (Inr header)
    with assms s1 have "seedSlots rem ch (timeSlots cfg) w1 = (r, w')"
      by (simp add: initializePlanningChannel_def)
    from seedSlots_spec[OF this] a show ?thesis by auto
  qed
  then show "\<exists>xs. calls w' = calls w @ xs \<and> list_all isSeeding xs"
    and "map shape (channels w') = map shape (channels w)" by blast+
qed

lemma deletedIds_append: "deletedIds (xs @ ys) = deletedIds xs @ deletedIds ys"
  by (induction xs rule: deletedIds.induct) auto

lemma createdNames_append: "createdNames (xs @ ys) = createdNames xs @ createdNames ys"
  by (induction xs rule: createdNames.induct) auto

lemma createdNames_seeding: "list_all isSeeding xs \<Longrightarrow> createdNames xs = []"
  by (induction xs rule: createdNames.induct) auto

lemma not_delete_seeding: "list_all isSeeding xs \<Longrightarrow> list_all (\<lambda>c. \<not> isDelete c) xs"
  by (induction xs rule: deletedIds.induct) auto

lemma deletedIds_deletes: "deletedIds (map (\<lambda>c. ChannelDelete (cid c)) cs) = map cid cs"
  by (induction cs) auto

lemma createdNames_deletes: "list_all isDelete xs \<Longrightarrow> createdNames xs = []"
  by (induction xs rule: createdNames.induct) auto

lemma deletedIds_not_delete: "list_all (\<lambda>c. \<not> isDelete c) xs \<Longrightarrow> deletedIds xs = []"
  by (induction xs rule: deletedIds.induct) auto

lemma deleteLoop_spec:
  "deleteLoop rem A cs w = (r, w') \<Longrightarrow>
     (\<exists>k. calls w' = calls w @ take k (map (\<lambda>c. ChannelDelete (cid c)) (outOfWindow A cs))) \<and>
     (r = None \<longrightarrow>
        calls w' = calls w @ map (\<lambda>c. ChannelDelete (cid c)) (outOfWindow A cs) \<and>
        channels w' = filter (\<lambda>d. cid d \<notin> cid ` set (outOfWindow A cs)) (channels w)) \<and>
     nextId w' = nextId w"
proof (induction cs arbitrary: w)
  case Nil
  then show ?case by (simp add: outOfWindow_def)
next
  case (Cons c cs)
  show ?case
  proof (cases "name c \<in> A")
    case True
    with Cons.prems have "deleteLoop rem A cs w = (r, w')" by simp
    from Cons.IH[OF this] True show ?thesis by (simp add: outOfWindow_def)
  next
    case False
    let ?w0 = "logger (InfoDeleteOutOfRange (name c)) w"
    obtain r1 w1 where d: "channelDelete rem c ?w0 = (r1, w1)"
      by (cases "channelDelete rem c ?w0")
    note a = channelDelete_spec[OF d]
    have w0: "calls ?w0 = calls w" "channels ?w0 = channels w" "nextId ?w0 = nextId w"
      by (simp_all add: logger_def)
    have oow: "outOfWindow A (c # cs) = c # outOfWindow A cs"
      using False by (simp add: outOfWindow_def)
    show ?thesis
    proof (cases r1)
      case (Some e)
      with Cons.prems False d have rw: "r = Some e" "w' = w1" by simp_all
      have "calls w' = calls w @ take 1 (map (\<lambda>c. ChannelDelete (cid c)) (outOfWindow A (c # cs)))"
        using a(1) w0 rw oow by simp
      then have "\<exists>k. calls w' = calls w @ take k (map (\<lambda>c. ChannelDelete (cid c)) (outOfWindow A (c # cs)))"
        by (rule exI)
      then show ?thesis using rw a(2) w0 by simp
    next
      case None
      with Cons.prems False d have rest: "deleteLoop rem A cs w1 = (r, w')" by simp
      from Cons.IH[OF rest] obtain k where
        k: "calls w' = calls w1 @ take k (map (\<lambda>c. ChannelDelete (cid c)) (outOfWindow A cs))"
        and full: "r = None \<longrightarrow>
          calls w' = calls w1 @ map (\<lambda>c. ChannelDelete (cid c)) (outOfWindow A cs) \<and>
          channels w' = filter (\<lambda>d. cid d \<notin> cid ` set (outOfWindow A cs)) (channels w1)"
        and nid: "nextId w' = nextId w1" by blast
      have kk: "calls w' = calls w @ take (Suc k) (map (\<lambda>c. ChannelDelete (cid c)) (outOfWindow A (c # cs)))"
        using k a(1) w0 oow by simp
      have full': "r = None \<longrightarrow>
          calls w' = calls w @ map (\<lambda>c. ChannelDelete (cid c)) (outOfWindow A (c # cs)) \<and>
          channels w' = filter (\<lambda>d. cid d \<notin> cid ` set (outOfWindow A (c # cs))) (channels w)"
        using full a(1) a(4)[OF None] w0 oow by (auto intro: filter_cong)
      from kk have "\<exists>k. calls w' = calls w @ take k (map (\<lambda>c. ChannelDelete (cid c)) (outOfWindow A (c # cs)))"
        by (rule exI)
      moreover note full'
      ultimately show ?thesis using nid a(2) w0 by simp
    qed
  qed
qed

lemma find_planning:
  "(find (\<lambda>c. name c = n \<and> parentId c = Some (cid category) \<and> ctype c = GuildText)
       (channels w) = None) = (n \<notin> planningNames category w)"
  by (auto simp: find_None_iff planningNames_def inPlanning_def)

lemma createLoop_spec:
  "createLoop rem cfg category ds w = (r, w') \<Longrightarrow>
     (\<exists>xs. calls w' = calls w @ xs \<and> list_all (\<lambda>c. \<not> isDelete c) xs \<and>
        (r = None \<longrightarrow>
           createdNames xs = missingNames (planningNames category w) (map channelName ds))) \<and>
     (r = None \<longrightarrow>
        planningNames category w' = planningNames category w \<union> set (map channelName ds))"
proof (induction ds arbitrary: w)
  case Nil
  then show ?case by simp
next
  case (Cons d ds)
  let ?n = "channelName d"
  show ?case
  proof (cases "?n \<in> planningNames category w")
    case True
    then obtain ex where "find (\<lambda>c. name c = ?n \<and> parentId c = Some (cid category) \<and>
        ctype c = GuildText) (channels w) = Some ex"
      using find_planning[of ?n category w] by auto
    with Cons.prems have "createLoop rem cfg category ds w = (r, w')" by simp
    from Cons.IH[OF this] True show ?thesis by auto
  next
    case False
    then have nf: "find (\<lambda>c. name c = ?n \<and> parentId c = Some (cid category) \<and>
        ctype c = GuildText) (channels w) = None"
      using find_planning[of ?n category w] by simp
    let ?w0 = "logger (InfoCreateChannel ?n) w"
    have w0: "calls ?w0 = calls w" "channels ?w0 = channels w"
      by (simp_all add: logger_def)
    obtain r1 w1 where c1: "channelsCreate rem ?n GuildText (Some (cid category)) ?w0 = (r1, w1)"
      by (cases "channelsCreate rem ?n GuildText (Some (cid category)) ?w0")
    note a = channelsCreate_spec[OF c1]
    show ?thesis
    proof (cases r1)
      case (Inl e)
      with Cons.prems nf c1 have "r = Some e" "w' = w1" by simp_all
      with a(1) w0 show ?thesis by simp
    next
      case (Inr ch)
      from a(4)[OF Inr] w0 have ch: "name ch = ?n" "inPlanning category ch"
        and chs: "channels w1 = channels w @ [ch]"
        by (simp_all add: inPlanning_def)
      have names1: "planningNames category w1 = insert ?n (planningNames category w)"
        using ch chs by (simp add: planningNames_def)
      obtain r2 w2 where i2: "initializePlanningChannel rem cfg ch (dayLabel d) w1 = (r2, w2)"
        by (cases "initializePlanningChannel rem cfg ch (dayLabel d) w1")
      from initializePlanningChannel_spec[OF i2] obtain ys where
        ys: "calls w2 = calls w1 @ ys" "list_all isSeeding ys"
        and sh: "map shape (channels w2) = map shape (channels w1)" by blast
      have names2: "planningNames category w2 = insert ?n (planningNames category w)"
        using planningNames_cong[OF sh] names1 by simp
      show ?thesis
      proof (cases r2)
        case (Some e)
        with Cons.prems nf c1 Inr i2 have "r = Some e" "w' = w2" by simp_all
        with a(1) w0 ys not_delete_seeding[OF ys(2)] show ?thesis by simp
      next
        case None
        with Cons.prems nf c1 Inr i2 have rest: "createLoop rem cfg category ds w2 = (r, w')"
          by simp
        from Cons.IH[OF rest] obtain xs where
          xs: "calls w' = calls w2 @ xs" "list_all (\<lambda>c. \<not> isDelete c) xs"
          and cr: "r = None \<longrightarrow>
             createdNames xs = missingNames (planningNames category w2) (map channelName ds)"
          and nm: "r = None \<longrightarrow>
             planningNames category w' = planningNames category w2 \<union> set (map channelName ds)"
          by blast
        let ?all = "ChannelCreate ?n # ys @ xs"
        have "calls w' = calls w @ ?all"
          using xs(1) ys(1) a(1) w0 by simp
        moreover have "list_all (\<lambda>c. \<not> isDelete c) ?all"
          using xs(2) not_delete_seeding[OF ys(2)] by simp
        moreover have "r = None \<longrightarrow>
           createdNames ?all = missingNames (planningNames category w) (map channelName (d # ds))"
          using cr False names2 by (simp add: createdNames_append createdNames_seeding[OF ys(2)])
        moreover have "r = None \<longrightarrow>
           planningNames category w' = planningNames category w \<union> set (map channelName (d # ds))"
          using nm names2 by auto
        ultimately show ?thesis by blast
      qed
    qed
  qed
qed

lemma missingNames_spec:
  "distinct (missingNames present ns) \<and> set (missingNames present ns) = set ns - present"
  by (induction ns arbitrary: present) auto

lemma desiredSlugs_window:
  "snd (planningWindow fmt today ahead) = desiredSlugs fmt today ahead"
  by (simp add: planningWindow_snd desiredSlugs_def)

lemma desired_names_window:
  "set (map channelName (fst (planningWindow fmt today ahead))) = desiredSlugs fmt today ahead"
  using planningWindow_allowed[of fmt today ahead] by (simp add: desiredSlugs_window)

lemma syncPlanning_split:
  assumes "syncPlanning rem fmt cfg today category w = (r, w')"
  shows "\<exists>r1 w1.
    deleteLoop rem (desiredSlugs fmt today (daysAhead cfg))
        (filter (inPlanning category) (channels w)) w = (r1, w1)
    \<and> (r1 \<noteq> None \<longrightarrow> r = r1 \<and> w' = w1)
    \<and> (r1 = None \<longrightarrow>
          createLoop rem cfg category (fst (planningWindow fmt today (daysAhead cfg))) w1 = (r, w'))"
proof -
  obtain r1 w1 where d: "deleteLoop rem (desiredSlugs fmt today (daysAhead cfg))
        (filter (inPlanning category) (channels w)) w = (r1, w1)"
    by (cases "deleteLoop rem (desiredSlugs fmt today (daysAhead cfg))
        (filter (inPlanning category) (channels w)) w")
  have ip: "(\<lambda>c. parentId c = Some (cid category) \<and> ctype c = GuildText) = inPlanning category"
    by (auto simp: inPlanning_def)
  obtain ds A where pw: "planningWindow fmt today (daysAhead cfg) = (ds, A)"
    by (cases "planningWindow fmt today (daysAhead cfg)")
  then have A: "A = desiredSlugs fmt today (daysAhead cfg)"
    using desiredSlugs_window[of fmt today "daysAhead cfg"] by simp
  from assms d pw A show ?thesis
    by (cases r1) (auto simp: syncPlanning_def ip Let_def)
qed

lemma outOfWindow_planning:
  "outOfWindow A (filter (inPlanning category) chans) =
     filter (\<lambda>c. inPlanning category c \<and> name c \<notin> A) chans"
  by (induction chans) (auto simp: outOfWindow_def)

lemma planningNames_after_delete:
  assumes "channels w1 =
     filter (\<lambda>d. cid d \<notin> cid ` set (outOfWindow A (filter (inPlanning category) (channels w))))
       (channels w)"
  shows "planningNames category w1 \<subseteq> planningNames category w \<inter> A"
    and "distinct (map cid (channels w)) \<Longrightarrow>
           planningNames category w1 = planningNames category w \<inter> A"
proof -
  show "planningNames category w1 \<subseteq> planningNames category w \<inter> A"
    unfolding planningNames_def assms outOfWindow_planning by (auto simp: image_iff)
  assume dist: "distinct (map cid (channels w))"
  have "c \<in> set (channels w) \<Longrightarrow> d \<in> set (channels w) \<Longrightarrow> cid c = cid d \<Longrightarrow> c = d" for c d
    using dist by (meson distinct_map inj_onD)
  then show "planningNames category w1 = planningNames category w \<inter> A"
    unfolding planningNames_def assms outOfWindow_planning by (auto simp: image_iff)
qed

text \<open>
  C1. Reconciler convergence. For every channel cache (a collection keyed by id) and
  every value of \<open>today\<close>, a pass of \<open>syncPlanning\<close> in which no operation fails, that
  is, which returns without a rejected call (the creation of a channel taken with the
  seeding of that channel), deletes exactly the text channels under the planning
  category whose names are not desired slugs, creates exactly the desired slugs that
  have no text channel under the category, each once, and leaves the names of the text
  channels under the category equal to the desired-slug set.
\<close>

theorem syncPlanning_converges:
  assumes "distinct (map cid (channels w))"
    and "syncPlanning rem fmt cfg today category w = (None, w')"
  shows "deletedIds (issued w w') =
           map cid (filter (\<lambda>c. inPlanning category c \<and>
                                 name c \<notin> desiredSlugs fmt today (daysAhead cfg)) (channels w))
       \<and> distinct (createdNames (issued w w'))
       \<and> set (createdNames (issued w w')) =
           desiredSlugs fmt today (daysAhead cfg) - planningNames category w
       \<and> planningNames category w' = desiredSlugs fmt today (daysAhead cfg)"
proof -
  let ?A = "desiredSlugs fmt today (daysAhead cfg)"
  let ?ds = "fst (planningWindow fmt today (daysAhead cfg))"
  let ?out = "outOfWindow ?A (filter (inPlanning category) (channels w))"
  from assms(2) obtain r1 w1 where
    d: "deleteLoop rem ?A (filter (inPlanning category) (channels w)) w = (r1, w1)"
    and fail: "r1 \<noteq> None \<longrightarrow> None = r1 \<and> w' = w1"
    and c: "r1 = None \<longrightarrow> createLoop rem cfg category ?ds w1 = (None, w')"
    using syncPlanning_split by blast
  have r1: "r1 = None" using fail by auto
  from deleteLoop_spec[OF d] r1 have
    dc: "calls w1 = calls w @ map (\<lambda>c. ChannelDelete (cid c)) ?out"
    and dch: "channels w1 = filter (\<lambda>d. cid d \<notin> cid ` set ?out) (channels w)" by simp_all
  from createLoop_spec[OF c[rule_format, OF r1]] obtain xs where
    xs: "calls w' = calls w1 @ xs" "list_all (\<lambda>c. \<not> isDelete c) xs"
    and cr: "createdNames xs = missingNames (planningNames category w1) (map channelName ?ds)"
    and nm: "planningNames category w' = planningNames category w1 \<union> set (map channelName ?ds)"
    by auto
  have iss: "issued w w' = map (\<lambda>c. ChannelDelete (cid c)) ?out @ xs"
    using xs(1) dc by (simp add: issued_def)
  have n1: "planningNames category w1 = planningNames category w \<inter> ?A"
    using planningNames_after_delete(2)[OF dch assms(1)] .
  have del: "deletedIds (issued w w') = map cid ?out"
    unfolding iss by (simp add: deletedIds_append deletedIds_deletes deletedIds_not_delete[OF xs(2)])
  have "list_all isDelete (map (\<lambda>c. ChannelDelete (cid c)) ?out)"
    by (simp add: list_all_iff)
  then have cre: "createdNames (issued w w') = missingNames (planningNames category w1) (map channelName ?ds)"
    unfolding iss by (simp add: createdNames_append createdNames_deletes cr)
  have "set (createdNames (issued w w')) = ?A - planningNames category w"
    unfolding cre using missingNames_spec[of "planningNames category w1" "map channelName ?ds"]
    unfolding desired_names_window n1 by auto
  moreover have "distinct (createdNames (issued w w'))"
    unfolding cre using missingNames_spec by blast
  moreover have "planningNames category w' = ?A"
    unfolding nm desired_names_window n1 by auto
  ultimately show ?thesis
    using del by (simp add: outOfWindow_planning)
qed

lemma sample_window:
  "planningWindow sampleRender sampleToday 2 =
     ([\<lparr>channelName = ''lundi-3-novembre'', dayLabel = ''lundi 3 novembre''\<rparr>,
       \<lparr>channelName = ''mardi-4-novembre'', dayLabel = ''mardi 4 novembre''\<rparr>],
      {''lundi-3-novembre'', ''mardi-4-novembre''})"
proof -
  have "fst (planningWindow sampleRender sampleToday 2) =
     [\<lparr>channelName = ''lundi-3-novembre'', dayLabel = ''lundi 3 novembre''\<rparr>,
      \<lparr>channelName = ''mardi-4-novembre'', dayLabel = ''mardi 4 novembre''\<rparr>]"
    by code_simp
  then show ?thesis
    using planningWindow_allowed[of sampleRender sampleToday 2] by (simp add: prod_eq_iff)
qed

lemmas remote_ops = logger_def channelDelete_def issue_def channelsCreate_def
  initializePlanningChannel_def channelSend_def messageReact_def addReaction_def Let_def

lemma sample_run:
  "syncPlanning allSucceed sampleRender sampleConfig sampleToday sampleCategory sampleWorld =
     (None, sampleSynced)"
  unfolding syncPlanning_def sampleConfig_def
  by (simp add: sample_window)
     (simp add: sampleWorld_def sampleSynced_def sampleCategory_def allSucceed_def remote_ops)

lemma sample_issued:
  "issued sampleWorld sampleSynced =
     [ChannelDelete 2, ChannelCreate ''mardi-4-novembre'', MessageSend 10 [],
      MessageSend 10 ''18:00 - 20:00'', MessageReact 12 checkMark]"
  by (simp add: issued_def sampleWorld_def sampleSynced_def)

theorem syncPlanning_converges_witness:
  "distinct (map cid (channels sampleWorld))
   \<and> syncPlanning allSucceed sampleRender sampleConfig sampleToday sampleCategory sampleWorld =
       (None, sampleSynced)
   \<and> desiredSlugs sampleRender sampleToday (daysAhead sampleConfig) =
       {''lundi-3-novembre'', ''mardi-4-novembre''}
   \<and> deletedIds (issued sampleWorld sampleSynced) = [2]
   \<and> createdNames (issued sampleWorld sampleSynced) = [''mardi-4-novembre'']
   \<and> planningNames sampleCategory sampleSynced = {''lundi-3-novembre'', ''mardi-4-novembre''}"
proof -
  have d: "distinct (map cid (channels sampleWorld))"
    by (simp add: sampleWorld_def sampleCategory_def)
  have s: "desiredSlugs sampleRender sampleToday (daysAhead sampleConfig) =
       {''lundi-3-novembre'', ''mardi-4-novembre''}"
    using desiredSlugs_window[of sampleRender sampleToday 2] by (simp add: sample_window sampleConfig_def)
  from syncPlanning_converges[OF d sample_run] d s show ?thesis
    by (simp add: sample_run sample_issued)
qed

lemma syncPlanning_converged_noop:
  assumes "planningNames category w = desiredSlugs fmt today (daysAhead cfg)"
  shows "syncPlanning rem fmt cfg today category w = (None, w)"
proof -
  let ?A = "desiredSlugs fmt today (daysAhead cfg)"
  have out: "outOfWindow ?A (filter (inPlanning category) (channels w)) = []"
    unfolding outOfWindow_planning using assms by (auto simp: planningNames_def filter_empty_conv)
  have dl: "deleteLoop rem A cs v = (None, v)" if "outOfWindow A cs = []" for A cs v
    using that by (induction cs) (auto simp: outOfWindow_def split: if_splits)
  have cl: "createLoop rem cfg category ds v = (None, v)"
    if "set (map channelName ds) \<subseteq> planningNames category v" for ds v
    using that
  proof (induction ds)
    case Nil
    then show ?case by simp
  next
    case (Cons d ds)
    then have "channelName d \<in> planningNames category v" by simp
    then obtain ex where "find (\<lambda>c. name c = channelName d \<and> parentId c = Some (cid category) \<and>
        ctype c = GuildText) (channels v) = Some ex"
      using find_planning[of "channelName d" category v] by auto
    with Cons show ?case by simp
  qed
  have ip: "(\<lambda>c. parentId c = Some (cid category) \<and> ctype c = GuildText) = inPlanning category"
    by (auto simp: inPlanning_def)
  obtain ds A where pw: "planningWindow fmt today (daysAhead cfg) = (ds, A)"
    by (cases "planningWindow fmt today (daysAhead cfg)")
  then have A: "A = ?A" and ds: "set (map channelName ds) = ?A"
    using desiredSlugs_window[of fmt today "daysAhead cfg"]
      desired_names_window[of fmt today "daysAhead cfg"] by simp_all
  show ?thesis
    unfolding syncPlanning_def pw ip Let_def
    using dl[OF out] cl[of ds w] A ds assms by simp
qed

text \<open>
  C2. Reconciler idempotence. When a pass has completed (no call rejected), a second
  pass with the same \<open>today\<close> on the channel set the first one produced returns the
  world unchanged, whatever the platform would answer: it issues no call at all, so
  zero creations and zero deletions.
\<close>

theorem syncPlanning_idempotent:
  assumes "syncPlanning rem fmt cfg today category w = (None, w1)"
  shows "syncPlanning rem' fmt cfg today category w1 = (None, w1)
       \<and> issued w1 (snd (syncPlanning rem' fmt cfg today category w1)) = []"
proof -
  let ?A = "desiredSlugs fmt today (daysAhead cfg)"
  let ?ds = "fst (planningWindow fmt today (daysAhead cfg))"
  let ?out = "outOfWindow ?A (filter (inPlanning category) (channels w))"
  from assms obtain r0 w0 where
    d: "deleteLoop rem ?A (filter (inPlanning category) (channels w)) w = (r0, w0)"
    and fail: "r0 \<noteq> None \<longrightarrow> None = r0 \<and> w1 = w0"
    and c: "r0 = None \<longrightarrow> createLoop rem cfg category ?ds w0 = (None, w1)"
    using syncPlanning_split by blast
  have r0: "r0 = None" using fail by auto
  from deleteLoop_spec[OF d] r0 have
    dch: "channels w0 = filter (\<lambda>d. cid d \<notin> cid ` set ?out) (channels w)" by simp
  from createLoop_spec[OF c[rule_format, OF r0]] have
    nm: "planningNames category w1 = planningNames category w0 \<union> set (map channelName ?ds)"
    by auto
  have "planningNames category w1 = ?A"
    unfolding nm desired_names_window using planningNames_after_delete(1)[OF dch] by auto
  from syncPlanning_converged_noop[OF this] show ?thesis
    by (simp add: issued_def)
qed

theorem syncPlanning_idempotent_witness:
  "syncPlanning allSucceed sampleRender sampleConfig sampleToday sampleCategory sampleWorld =
     (None, sampleSynced)
   \<and> syncPlanning noneSucceed sampleRender sampleConfig sampleToday sampleCategory sampleSynced =
       (None, sampleSynced)
   \<and> issued sampleSynced
        (snd (syncPlanning noneSucceed sampleRender sampleConfig sampleToday sampleCategory sampleSynced)) = []"
  using syncPlanning_idempotent[OF sample_run, of noneSucceed] sample_run
  by (simp add: issued_def)

text \<open>When the platform rejects nothing, every loop of the pass runs to its end and the
  pass returns without error, whatever the guild.\<close>

lemma seedSlots_allSucceed: "\<forall>k c. rem k c \<Longrightarrow> fst (seedSlots rem ch slots w) = None"
  by (induction slots arbitrary: w)
     (auto simp: channelSend_def messageReact_def issue_def Let_def split: prod.splits sum.splits option.splits)

lemma deleteLoop_allSucceed: "\<forall>k c. rem k c \<Longrightarrow> fst (deleteLoop rem A cs w) = None"
  by (induction cs arbitrary: w) (auto simp: channelDelete_def issue_def)

lemma createLoop_allSucceed: "\<forall>k c. rem k c \<Longrightarrow> fst (createLoop rem cfg category ds w) = None"
proof (induction ds arbitrary: w)
  case Nil
  then show ?case by simp
next
  case (Cons d ds)
  have seed: "fst (seedSlots rem ch slots v) = None" for ch slots v
    using Cons.prems by (rule seedSlots_allSucceed)
  have init: "\<exists>v'. initializePlanningChannel rem cfg ch lbl v = (None, v')" for ch lbl v
    using Cons.prems seed[of ch "timeSlots cfg"]
    by (auto simp: initializePlanningChannel_def channelSend_def issue_def Let_def prod_eq_iff)
  show ?case
  proof (cases "find (\<lambda>c. name c = channelName d \<and> parentId c = Some (cid category) \<and>
                      ctype c = GuildText) (channels w)")
    case (Some ex)
    with Cons show ?thesis by simp
  next
    case None
    let ?w0 = "logger (InfoCreateChannel (channelName d)) w"
    obtain ch w1 where c: "channelsCreate rem (channelName d) GuildText (Some (cid category)) ?w0 = (Inr ch, w1)"
      using Cons.prems by (auto simp: channelsCreate_def issue_def Let_def)
    obtain w2 where i: "initializePlanningChannel rem cfg ch (dayLabel d) w1 = (None, w2)"
      using init by blast
    show ?thesis using None c i Cons.IH[OF Cons.prems, of w2] by simp
  qed
qed

lemma syncPlanning_allSucceed:
  assumes "\<forall>k c. rem k c"
  shows "fst (syncPlanning rem fmt cfg today category w) = None"
proof -
  obtain r w' where run: "syncPlanning rem fmt cfg today category w = (r, w')"
    by (cases "syncPlanning rem fmt cfg today category w")
  from syncPlanning_split[OF run] obtain r1 w1 where
    d: "deleteLoop rem (desiredSlugs fmt today (daysAhead cfg))
        (filter (inPlanning category) (channels w)) w = (r1, w1)"
    and c: "r1 = None \<longrightarrow>
          createLoop rem cfg category (fst (planningWindow fmt today (daysAhead cfg))) w1 = (r, w')"
    by blast
  have "r1 = None" using deleteLoop_allSucceed[OF assms, of _ _ w] d by (metis fst_conv)
  with c createLoop_allSucceed[OF assms, of cfg category _ w1] have "r = None" by (metis fst_conv)
  with run show ?thesis by simp
qed

lemma phases_split:
  assumes "list_all isDelete ds" and "list_all (\<lambda>c. \<not> isDelete c) cs"
  shows "deletionPhase (ds @ cs) = ds" and "creationPhase (ds @ cs) = cs"
proof -
  have tw: "takeWhile isDelete cs = []" and dw: "dropWhile isDelete cs = cs"
    using assms(2) by (cases cs; simp)+
  show "deletionPhase (ds @ cs) = ds"
    using assms(1) tw by (simp add: deletionPhase_def list_all_iff)
  show "creationPhase (ds @ cs) = cs"
    using assms(1) dw by (simp add: creationPhase_def list_all_iff)
qed

lemma syncPlanning_issued:
  assumes "syncPlanning rem fmt cfg today category w = (r, w')"
  shows "\<exists>k cs. issued w w' =
            take k (map (\<lambda>c. ChannelDelete (cid c))
               (outOfWindow (desiredSlugs fmt today (daysAhead cfg))
                  (filter (inPlanning category) (channels w)))) @ cs
          \<and> list_all (\<lambda>c. \<not> isDelete c) cs
          \<and> (cs \<noteq> [] \<or> r = None \<longrightarrow>
                 k = length (outOfWindow (desiredSlugs fmt today (daysAhead cfg))
                  (filter (inPlanning category) (channels w))))
          \<and> (fst (planningWindow fmt today (daysAhead cfg)) = [] \<longrightarrow> cs = [])"
proof -
  let ?A = "desiredSlugs fmt today (daysAhead cfg)"
  let ?ds = "fst (planningWindow fmt today (daysAhead cfg))"
  let ?out = "outOfWindow ?A (filter (inPlanning category) (channels w))"
  let ?full = "map (\<lambda>c. ChannelDelete (cid c)) ?out"
  from syncPlanning_split[OF assms] obtain r1 w1 where
    d: "deleteLoop rem ?A (filter (inPlanning category) (channels w)) w = (r1, w1)"
    and fail: "r1 \<noteq> None \<longrightarrow> r = r1 \<and> w' = w1"
    and c: "r1 = None \<longrightarrow> createLoop rem cfg category ?ds w1 = (r, w')"
    by blast
  from deleteLoop_spec[OF d] obtain k where
    k: "calls w1 = calls w @ take k ?full"
    and full: "r1 = None \<longrightarrow> calls w1 = calls w @ ?full" by blast
  show ?thesis
  proof (cases r1)
    case (Some e)
    with fail k have "issued w w' = take k ?full @ []" "r \<noteq> None"
      by (simp_all add: issued_def)
    then show ?thesis by (intro exI[of _ k] exI[of _ "[]"]) auto
  next
    case None
    from createLoop_spec[OF c[rule_format, OF None]] obtain xs where
      xs: "calls w' = calls w1 @ xs" "list_all (\<lambda>c. \<not> isDelete c) xs" by blast
    have e: "?ds = [] \<longrightarrow> xs = []"
      using c None xs(1) by auto
    have "issued w w' = take (length ?out) ?full @ xs"
      using xs(1) full None by (simp add: issued_def)
    with xs(2) e show ?thesis
      by (intro exI[of _ "length ?out"] exI[of _ xs]) simp
  qed
qed

text \<open>
  C5. Ordering. In every pass, completed or cut short by a rejected call, the calls
  issued are a block of channel deletions followed by a block without any deletion,
  which holds all the creations and their seeding; and when that second block is not
  empty, the first is the complete list of deletions of the pass.
\<close>

theorem deletions_before_creations:
  assumes "syncPlanning rem fmt cfg today category w = (r, w')"
  shows "issued w w' = deletionPhase (issued w w') @ creationPhase (issued w w')
       \<and> list_all isDelete (deletionPhase (issued w w'))
       \<and> list_all (\<lambda>c. \<not> isDelete c) (creationPhase (issued w w'))
       \<and> (creationPhase (issued w w') \<noteq> [] \<longrightarrow>
            deletionPhase (issued w w') =
              map (\<lambda>c. ChannelDelete (cid c))
                (filter (\<lambda>c. inPlanning category c \<and>
                              name c \<notin> desiredSlugs fmt today (daysAhead cfg)) (channels w)))"
proof -
  let ?out = "outOfWindow (desiredSlugs fmt today (daysAhead cfg))
                  (filter (inPlanning category) (channels w))"
  let ?full = "map (\<lambda>c. ChannelDelete (cid c)) ?out"
  from syncPlanning_issued[OF assms] obtain k cs where
    iss: "issued w w' = take k ?full @ cs"
    and cs: "list_all (\<lambda>c. \<not> isDelete c) cs"
    and k: "cs \<noteq> [] \<longrightarrow> k = length ?out" by blast
  have del: "list_all isDelete (take k ?full)"
    by (auto simp: list_all_iff dest!: in_set_takeD)
  note ph = phases_split[OF del cs]
  have "cs \<noteq> [] \<longrightarrow> take k ?full = ?full" using k by simp
  then show ?thesis
    unfolding iss ph using del cs by (simp add: outOfWindow_planning)
qed

theorem deletions_before_creations_witness:
  "syncPlanning allSucceed sampleRender sampleConfig sampleToday sampleCategory sampleWorld =
     (None, sampleSynced)
   \<and> deletionPhase (issued sampleWorld sampleSynced) = [ChannelDelete 2]
   \<and> creationPhase (issued sampleWorld sampleSynced) =
       [ChannelCreate ''mardi-4-novembre'', MessageSend 10 [],
        MessageSend 10 ''18:00 - 20:00'', MessageReact 12 checkMark]
   \<and> creationPhase (issued sampleWorld sampleSynced) \<noteq> []
   \<and> list_all (\<lambda>c. \<not> isDelete c) (creationPhase (issued sampleWorld sampleSynced))"
  using deletions_before_creations[OF sample_run] sample_run
  by (simp add: sample_issued deletionPhase_def creationPhase_def)

text \<open>
  C9. A window size that is zero or negative. The loader \<open>parseNumericEnv\<close> hands any
  finite number over, negative ones too; with \<open>daysAhead \<le> 0\<close> the window and the set
  of allowed names are empty, no pass creates a channel, and a pass in which no call is
  rejected deletes every text channel under the planning category.
\<close>

theorem nonpositive_daysAhead_deletes_all:
  assumes "daysAhead cfg \<le> 0"
    and "syncPlanning rem fmt cfg today category w = (r, w')"
  shows "planningWindow fmt today (daysAhead cfg) = ([], {})
       \<and> createdNames (issued w w') = []
       \<and> (r = None \<longrightarrow>
            deletedIds (issued w w') = map cid (filter (inPlanning category) (channels w))
            \<and> planningNames category w' = {})
       \<and> (toNumber s = Finite (daysAhead cfg) \<longrightarrow>
            parseNumericEnv toNumber (Some s) dflt = daysAhead cfg)"
proof -
  have z: "nat \<lceil>daysAhead cfg\<rceil> = 0" using assms(1) by (simp add: ceiling_le_iff)
  have pw: "planningWindow fmt today (daysAhead cfg) = ([], {})"
    using planningWindow_fst[of fmt today "daysAhead cfg"]
      planningWindow_snd[of fmt today "daysAhead cfg"] z by (simp add: prod_eq_iff)
  have A: "desiredSlugs fmt today (daysAhead cfg) = {}"
    using z by (simp add: desiredSlugs_def)
  let ?out = "outOfWindow {} (filter (inPlanning category) (channels w))"
  let ?full = "map (\<lambda>c. ChannelDelete (cid c)) ?out"
  have out: "?out = filter (inPlanning category) (channels w)"
    by (simp add: outOfWindow_def)
  from syncPlanning_issued[OF assms(2)] pw A obtain k where
    iss: "issued w w' = take k ?full"
    and k: "r = None \<longrightarrow> k = length ?out" by auto
  have "list_all isDelete (take k ?full)"
    by (auto simp: list_all_iff dest!: in_set_takeD)
  then have cr: "createdNames (issued w w') = []"
    unfolding iss by (rule createdNames_deletes)
  have del: "r = None \<longrightarrow> deletedIds (issued w w') = map cid (filter (inPlanning category) (channels w))"
    using k unfolding iss by (simp add: deletedIds_deletes out)
  have nm: "planningNames category w' = {}" if "r = None"
  proof -
    from assms(2) that have "planningNames category w' = desiredSlugs fmt today (daysAhead cfg)"
    proof -
      from syncPlanning_split[OF assms(2)] that obtain r1 w1 where
        d: "deleteLoop rem (desiredSlugs fmt today (daysAhead cfg))
              (filter (inPlanning category) (channels w)) w = (r1, w1)"
        and r1: "r1 = None"
        and c: "createLoop rem cfg category (fst (planningWindow fmt today (daysAhead cfg))) w1 = (None, w')"
        by (metis option.distinct(1))
      from c pw have "w' = w1" by simp
      with deleteLoop_spec[OF d] r1 have
        "channels w' = filter (\<lambda>d. cid d \<notin> cid ` set (outOfWindow (desiredSlugs fmt today (daysAhead cfg)) (filter (inPlanning category) (channels w)))) (channels w)"
        by simp
      from planningNames_after_delete(1)[OF this] A show ?thesis by simp
    qed
    with A show ?thesis by simp
  qed
  have "toNumber s = Finite (daysAhead cfg) \<longrightarrow>
            parseNumericEnv toNumber (Some s) dflt = daysAhead cfg"
    by (simp add: parseNumericEnv_def isFinite_def)
  with pw cr del nm show ?thesis by simp
qed

lemma negative_run:
  "syncPlanning allSucceed sampleRender negativeConfig sampleToday sampleCategory sampleWorld =
     (None, sampleEmptied)"
proof -
  have "planningWindow sampleRender sampleToday (- 1) = ([], {})"
    by (simp add: planningWindow_def windowLoop.simps)
  then show ?thesis
    unfolding syncPlanning_def negativeConfig_def
    by (simp add: sampleWorld_def sampleEmptied_def sampleCategory_def allSucceed_def remote_ops)
qed

theorem nonpositive_daysAhead_deletes_all_witness:
  "daysAhead negativeConfig \<le> 0
   \<and> parseNumericEnv sampleToNumber (Some ''-1'') 7 = daysAhead negativeConfig
   \<and> syncPlanning allSucceed sampleRender negativeConfig sampleToday sampleCategory sampleWorld =
       (None, sampleEmptied)
   \<and> planningWindow sampleRender sampleToday (daysAhead negativeConfig) = ([], {})
   \<and> createdNames (issued sampleWorld sampleEmptied) = []
   \<and> deletedIds (issued sampleWorld sampleEmptied) = [2, 3]
   \<and> planningNames sampleCategory sampleEmptied = {}"
proof -
  have n: "daysAhead negativeConfig \<le> 0"
    by (simp add: negativeConfig_def)
  have t: "sampleToNumber ''-1'' = Finite (daysAhead negativeConfig)"
    by (simp add: sampleToNumber_def negativeConfig_def)
  note th = nonpositive_daysAhead_deletes_all[OF n negative_run, of sampleToNumber "''-1''" 7]
  have f: "map cid (filter (inPlanning sampleCategory) (channels sampleWorld)) = [2, 3]"
    by (simp add: inPlanning_def sampleWorld_def sampleCategory_def)
  have p: "parseNumericEnv sampleToNumber (Some ''-1'') 7 = daysAhead negativeConfig"
    using th t by simp
  from th n p f negative_run show ?thesis
    by simp
qed

section \<open>Properties of the reminder correlator\<close>

text \<open>The loops without the world: what \<open>addUsers\<close> and \<open>slotLoop\<close> return is
  \<open>addIds\<close> and \<open>collect\<close>, and every id collected is in the user cache, so that the
  conversion loop resolves it without a request.\<close>

lemma addUsers_spec:
  "fst (addUsers us s w) = addIds us s \<and>
   calls (snd (addUsers us s w)) = calls w \<and>
   channels (snd (addUsers us s w)) = channels w \<and>
   userCache (snd (addUsers us s w)) = userCache w"
  by (induction us arbitrary: s w) (auto simp: logger_def)

lemma addIds_spec:
  "set (addIds us s) = set s \<union> uid ` {u \<in> set us. \<not> bot u} \<and>
   (distinct s \<longrightarrow> distinct (addIds us s))"
  by (induction us arbitrary: s) (auto simp: setAdd_def)

lemma signedUp_Cons:
  "signedUp msgs (t # ts) =
     (case find (\<lambda>m. content m = t) msgs of
        None \<Rightarrow> [] | Some m \<Rightarrow> filter (\<lambda>u. \<not> bot u) (listed m)) @ signedUp msgs ts"
  by (simp add: signedUp_def reactors_def split: option.splits)

lemma collect_spec:
  "set (collect msgs ts s) = set s \<union> uid ` set (signedUp msgs ts) \<and>
   (distinct s \<longrightarrow> distinct (collect msgs ts s))"
proof (induction ts arbitrary: s)
  case Nil
  then show ?case by (simp add: signedUp_def reactors_def)
next
  case (Cons t ts)
  show ?case
  proof (cases "find (\<lambda>m. content m = t) msgs")
    case None
    with Cons[of s] show ?thesis by (simp add: signedUp_Cons)
  next
    case (Some m)
    with Cons[of "addIds (listed m) s"] addIds_spec[of "listed m" s] show ?thesis
      by (auto simp: signedUp_Cons)
  qed
qed

lemma listed_no_reaction: "map_of (reactions m) checkMark = None \<Longrightarrow> listed m = []"
  by (simp add: listed_def reactorsOf_def)

lemma listed_reaction: "map_of (reactions m) checkMark = Some us \<Longrightarrow> listed m = take 100 us"
  by (simp add: listed_def reactorsOf_def)

lemma slotLoop_spec:
  "slotLoop rem msgs ts s w = (Inr s', w') \<Longrightarrow>
     s' = collect msgs ts s \<and>
     (set s \<subseteq> set (userCache w) \<longrightarrow> set s' \<subseteq> set (userCache w'))"
proof (induction ts arbitrary: s w)
  case Nil
  then show ?case by auto
next
  case (Cons t ts)
  show ?case
  proof (cases "find (\<lambda>m. content m = t) msgs")
    case None
    let ?v = "logger (WarnSlotMessageNotFound t) (logger (InfoSearchSlot t) w)"
    from Cons.prems None have "slotLoop rem msgs ts s ?v = (Inr s', w')" by simp
    from Cons.IH[OF this] None show ?thesis by (auto simp: logger_def)
  next
    case sm: (Some m)
    show ?thesis
    proof (cases "map_of (reactions m) checkMark")
      case None
      let ?v = "logger (WarnNoReaction t) (logger (InfoSlotMessageFound t (messageId m))
                  (logger (InfoSearchSlot t) w))"
      from Cons.prems sm None have "slotLoop rem msgs ts s ?v = (Inr s', w')" by simp
      from Cons.IH[OF this] sm listed_no_reaction[OF None] show ?thesis
        by (auto simp: logger_def)
    next
      case su: (Some us)
      let ?v = "logger (InfoSlotMessageFound t (messageId m)) (logger (InfoSearchSlot t) w)"
      obtain r1 w1 where f: "reactionUsersFetch rem m us ?v = (r1, w1)"
        by (cases "reactionUsersFetch rem m us ?v")
      from Cons.prems sm su f obtain fetched where r1: "r1 = Inr fetched"
        by (cases r1) auto
      from f r1 have fetched: "fetched = take 100 us"
        and c1: "userCache w1 = userCache w @ map uid (take 100 us)"
        by (auto simp: reactionUsersFetch_def issue_def logger_def Let_def
            split: bool.splits prod.splits)
      let ?v2 = "logger (InfoReactedCount t (length fetched)) w1"
      note a = addUsers_spec[of fetched s ?v2]
      from Cons.prems sm su f r1
      have rest: "slotLoop rem msgs ts (addIds fetched s) (snd (addUsers fetched s ?v2)) = (Inr s', w')"
        using a by (simp split: prod.splits)
      have cache: "set s \<subseteq> set (userCache w) \<longrightarrow>
          set (addIds fetched s) \<subseteq> set (userCache (snd (addUsers fetched s ?v2)))"
        using a addIds_spec[of fetched s] c1 fetched by (auto simp: logger_def)
      from Cons.IH[OF rest] cache sm listed_reaction[OF su] fetched show ?thesis
        by auto
    qed
  qed
qed

lemma resolveLoop_cached:
  "set ids \<subseteq> set (userCache w) \<Longrightarrow> resolveLoop rem ids acc w = (acc @ ids, w)"
  by (induction ids arbitrary: acc) (auto simp: usersFetch_def)

lemma getUsers_result:
  assumes "getUsersFromPlanning rem cfg fmt today dayOfWeek slots w = (Inr users, w')"
  shows "users = collect (todayMessages cfg fmt today w) slots []"
proof -
  let ?w0 = "logger (InfoSearchChannel (todayChannelName fmt today) (getDay today) dayOfWeek) w"
  have ch0: "channels ?w0 = channels w" by (simp add: logger_def)
  show ?thesis
  proof (cases "find (\<lambda>c. ctype c = GuildCategory \<and> name c = categoryName cfg) (channels w)")
    case None
    with assms ch0 have "users = []" by (simp add: getUsersFromPlanning_def Let_def)
    moreover have "collect [] slots s = s" for s
      by (induction slots) auto
    ultimately show ?thesis using None by (simp add: todayMessages_def)
  next
    case cat: (Some cat)
    show ?thesis
    proof (cases "find (\<lambda>c. parentId c = Some (cid cat) \<and> ctype c = GuildText \<and>
                           name c = todayChannelName fmt today) (channels w)")
      case None
      with assms ch0 cat have "users = []" by (simp add: getUsersFromPlanning_def Let_def)
      moreover have "collect [] slots s = s" for s
        by (induction slots) auto
      ultimately show ?thesis using None cat by (simp add: todayMessages_def)
    next
      case ch: (Some ch)
      have tm: "todayMessages cfg fmt today w = take 100 (rev (messages ch))"
        using cat ch by (simp add: todayMessages_def)
      let ?w1 = "logger (InfoChannelFound (name ch) (cid ch)) ?w0"
      obtain r1 w1 where mf: "messagesFetch rem ch 100 ?w1 = (r1, w1)"
        by (cases "messagesFetch rem ch 100 ?w1")
      from assms cat ch ch0 mf obtain msgs where r1: "r1 = Inr msgs"
        by (cases r1) (auto simp: getUsersFromPlanning_def Let_def)
      from mf r1 have msgs: "msgs = take 100 (rev (messages ch))"
        by (auto simp: messagesFetch_def split: prod.splits bool.splits)
      obtain r2 w2 where sl: "slotLoop rem msgs slots [] (logger (InfoMessagesFetched (length msgs)) w1) = (r2, w2)"
        by (cases "slotLoop rem msgs slots [] (logger (InfoMessagesFetched (length msgs)) w1)")
      from assms cat ch ch0 mf r1 sl obtain usersSet where r2: "r2 = Inr usersSet"
        by (cases r2) (auto simp: getUsersFromPlanning_def Let_def)
      from slotLoop_spec[OF sl[unfolded r2]] have
        us: "usersSet = collect msgs slots []" and cached: "set usersSet \<subseteq> set (userCache w2)"
        by (auto simp: logger_def)
      have "set usersSet \<subseteq> set (userCache (logger (InfoTotalUsers (length usersSet)) w2))"
        using cached by (simp add: logger_def)
      from resolveLoop_cached[OF this, of rem "[]"] assms cat ch ch0 mf r1 sl r2
      have "users = usersSet"
        by (auto simp: getUsersFromPlanning_def Let_def)
      with us show ?thesis unfolding tm msgs by simp
    qed
  qed
qed

text \<open>Whenever \<open>getUsersFromPlanning\<close> returns, its result is duplicate-free and holds
  exactly the ids of the non-bot users listed for the located messages of the relevant
  slots.\<close>

lemma getUsers_dedup:
  assumes "getUsersFromPlanning rem cfg fmt today dayOfWeek slots w = (Inr users, w')"
  shows "distinct users \<and>
         set users = uid ` set (signedUp (todayMessages cfg fmt today w) slots)"
  using getUsers_result[OF assms] collect_spec[of "todayMessages cfg fmt today w" slots "[]"]
  by simp

lemma slotLoop_allSucceed:
  "\<forall>k c. rem k c \<Longrightarrow> \<exists>s' w'. slotLoop rem msgs ts s w = (Inr s', w')"
proof (induction ts arbitrary: s w)
  case Nil
  then show ?case by simp
next
  case (Cons t ts)
  show ?case
  proof (cases "find (\<lambda>m. content m = t) msgs")
    case None
    with Cons show ?thesis by simp
  next
    case sm: (Some m)
    show ?thesis
    proof (cases "map_of (reactions m) checkMark")
      case None
      with sm Cons show ?thesis by simp
    next
      case su: (Some us)
      with sm Cons.prems Cons.IH[OF Cons.prems] show ?thesis
        by (simp add: reactionUsersFetch_def issue_def Let_def split: prod.splits)
    qed
  qed
qed

lemma getUsers_allSucceed:
  assumes "\<forall>k c. rem k c"
  shows "fst (getUsersFromPlanning rem cfg fmt today dayOfWeek slots w) =
           Inr (collect (todayMessages cfg fmt today w) slots [])"
proof -
  obtain r w' where run: "getUsersFromPlanning rem cfg fmt today dayOfWeek slots w = (r, w')"
    by (cases "getUsersFromPlanning rem cfg fmt today dayOfWeek slots w")
  have "\<exists>users. r = Inr users"
  proof (cases r)
    case (Inr users)
    then show ?thesis by simp
  next
    case (Inl e)
    let ?w0 = "logger (InfoSearchChannel (todayChannelName fmt today) (getDay today) dayOfWeek) w"
    have ch0: "channels ?w0 = channels w" by (simp add: logger_def)
    have False
    proof (cases "find (\<lambda>c. ctype c = GuildCategory \<and> name c = categoryName cfg) (channels w)")
      case None
      with run Inl ch0 show ?thesis by (simp add: getUsersFromPlanning_def Let_def)
    next
      case cat: (Some cat)
      show ?thesis
      proof (cases "find (\<lambda>c. parentId c = Some (cid cat) \<and> ctype c = GuildText \<and>
                           name c = todayChannelName fmt today) (channels w)")
        case None
        with run Inl ch0 cat show ?thesis by (simp add: getUsersFromPlanning_def Let_def)
      next
        case ch: (Some ch)
        let ?w1 = "logger (InfoChannelFound (name ch) (cid ch)) ?w0"
        let ?msgs = "take 100 (rev (messages ch))"
        let ?w2 = "logger (InfoMessagesFetched (length ?msgs))
                     (?w1\<lparr>calls := calls ?w1 @ [MessagesFetch (cid ch)]\<rparr>)"
        have mf: "messagesFetch rem ch 100 ?w1 =
              (Inr ?msgs, ?w1\<lparr>calls := calls ?w1 @ [MessagesFetch (cid ch)]\<rparr>)"
          using assms by (simp add: messagesFetch_def issue_def)
        from slotLoop_allSucceed[OF assms, of ?msgs slots "[]" ?w2] obtain s' v where
          sl: "slotLoop rem ?msgs slots [] ?w2 = (Inr s', v)" by blast
        from run Inl cat ch ch0 mf sl show ?thesis
          by (simp add: getUsersFromPlanning_def Let_def split: prod.splits)
      qed
    qed
    then show ?thesis ..
  qed
  then obtain users where "r = Inr users" ..
  with run getUsers_result[of rem cfg fmt today dayOfWeek slots w users w'] show ?thesis
    by simp
qed

lemma addIds_fresh:
  "\<forall>u \<in> set us. \<not> bot u \<Longrightarrow> distinct (map uid us) \<Longrightarrow> uid ` set us \<inter> set s = {} \<Longrightarrow>
     addIds us s = s @ map uid us"
  by (induction us arbitrary: s) (auto simp: setAdd_def)

lemma addIds_known:
  "\<forall>u \<in> set us. \<not> bot u \<longrightarrow> uid u \<in> set s \<Longrightarrow> addIds us s = s"
  by (induction us arbitrary: s) (auto simp: setAdd_def)

text \<open>The busy day of the sample: each listing returns the client's own user and the
  99 humans, not the late user.\<close>

lemma humans_ids: "map uid humans = [100 ..< 199]"
  by (simp add: humans_def comp_def)

lemma humans_facts:
  "length humans = 99 \<and> (\<forall>u \<in> set humans. \<not> bot u) \<and> distinct (map uid humans)"
  unfolding humans_ids by (simp add: humans_def)

lemma crowded_listed:
  "listed crowdedA = \<lparr>uid = 99, bot = True\<rparr> # humans \<and>
   listed crowdedB = \<lparr>uid = 99, bot = True\<rparr> # humans"
  using humans_facts by (simp add: listed_def reactorsOf_def crowdedA_def crowdedB_def)

lemma crowded_collect:
  "addIds (listed crowdedB) (addIds (listed crowdedA) []) = [100 ..< 199]"
proof -
  have a: "addIds (listed crowdedA) [] = map uid humans"
    using addIds_fresh[of humans "[]"] humans_facts by (simp add: crowded_listed)
  have "addIds (listed crowdedB) (map uid humans) = map uid humans"
    using addIds_known[of humans "map uid humans"] by (simp add: crowded_listed)
  with a show ?thesis by (simp add: humans_ids)
qed

lemma sample_today: "todayChannelName sampleRender reminderToday = ''mercredi-5-novembre''"
  unfolding reminderToday_def by code_simp

lemma crowded_fields:
  "content crowdedA = ''18:00 - 20:00'' \<and> content crowdedB = ''20:00 - 22:00'' \<and>
   messageId crowdedA = 12 \<and> messageId crowdedB = 13"
  by (simp add: crowdedA_def crowdedB_def)

lemma crowded_messages:
  "todayMessages sampleConfig sampleRender reminderToday crowdedWorld =
     [crowdedB, crowdedA,
      \<lparr>messageId = 11, content = [], embeds = [''Planning pour mercredi 5 novembre''],
         reactions = []\<rparr>]"
  by (simp add: todayMessages_def sample_today sampleConfig_def crowdedWorld_def sampleCategory_def)

lemma crowded_run:
  "fst (getUsersFromPlanning allSucceed sampleConfig sampleRender reminderToday 3 relevantSlots
          crowdedWorld) = Inr [100 ..< 199]"
proof -
  have "\<forall>k c. allSucceed k c" by (simp add: allSucceed_def)
  from getUsers_allSucceed[OF this, of sampleConfig sampleRender reminderToday 3 relevantSlots
      crowdedWorld]
  show ?thesis
    unfolding crowded_messages
    by (simp add: relevantSlots_def crowded_fields crowded_collect del: upt_Suc)
qed

lemma reminder_messages:
  "todayMessages sampleConfig sampleRender reminderToday reminderWorld =
     [slotB, slotA,
      \<lparr>messageId = 11, content = [], embeds = [''Planning pour mercredi 5 novembre''],
         reactions = []\<rparr>]"
  by (simp add: todayMessages_def sample_today sampleConfig_def reminderWorld_def sampleCategory_def)

lemma reminder_run:
  "fst (getUsersFromPlanning allSucceed sampleConfig sampleRender reminderToday 3 relevantSlots
          reminderWorld) = Inr [1, 2]"
proof -
  have "\<forall>k c. allSucceed k c" by (simp add: allSucceed_def)
  from getUsers_allSucceed[OF this, of sampleConfig sampleRender reminderToday 3 relevantSlots
      reminderWorld]
  show ?thesis
    unfolding reminder_messages
    by (simp add: relevantSlots_def slotA_def slotB_def userB_def listed_def reactorsOf_def
        setAdd_def)
qed

text \<open>
  C4. The set of ids removes duplicates and bot accounts are skipped, in every run (lemma
  \<open>getUsers_dedup\<close>); but the users behind a reaction are listed by one request, which
  returns the first 100 of them. On the busy day of the sample the late user, a human,
  stands behind the affirmative reaction of the messages located for both relevant slots,
  as the 101st user of each; every remote call succeeds, the correlator returns the ids
  100 to 198, and the late user's id is not among them: the user appears zero times, not
  once.
\<close>

theorem reminder_listing_cap:
  "find (\<lambda>m. content m = ''18:00 - 20:00'')
       (todayMessages sampleConfig sampleRender reminderToday crowdedWorld) = Some crowdedA
   \<and> find (\<lambda>m. content m = ''20:00 - 22:00'')
       (todayMessages sampleConfig sampleRender reminderToday crowdedWorld) = Some crowdedB
   \<and> set relevantSlots = {''18:00 - 20:00'', ''20:00 - 22:00''}
   \<and> crowdedA \<noteq> crowdedB
   \<and> lateUser \<in> set (reactorsOf crowdedA) \<and> lateUser \<in> set (reactorsOf crowdedB)
   \<and> \<not> bot lateUser
   \<and> length (reactorsOf crowdedA) = 101 \<and> length (reactorsOf crowdedB) = 101
   \<and> fst (getUsersFromPlanning allSucceed sampleConfig sampleRender reminderToday 3 relevantSlots
          crowdedWorld) = Inr [100 ..< 199]
   \<and> uid lateUser \<notin> set [100 ..< 199]
   \<and> count_list [100 ..< 199] (uid lateUser) = 0"
proof -
  have ne: "crowdedA \<noteq> crowdedB"
    using crowded_fields by auto
  have r: "reactorsOf crowdedA = \<lparr>uid = 99, bot = True\<rparr> # humans @ [lateUser]"
    "reactorsOf crowdedB = \<lparr>uid = 99, bot = True\<rparr> # humans @ [lateUser]"
    by (simp_all add: reactorsOf_def crowdedA_def crowdedB_def)
  have n: "uid lateUser \<notin> set [100 ..< 199]"
    by (simp add: lateUser_def)
  then have c: "count_list [100 ..< 199] (uid lateUser) = 0"
    by (simp only: count_list_0_iff not_False_eq_True)
  have f: "find (\<lambda>m. content m = ''18:00 - 20:00'')
       (todayMessages sampleConfig sampleRender reminderToday crowdedWorld) = Some crowdedA"
    "find (\<lambda>m. content m = ''20:00 - 22:00'')
       (todayMessages sampleConfig sampleRender reminderToday crowdedWorld) = Some crowdedB"
    unfolding crowded_messages by (simp_all add: crowded_fields)
  have l: "\<not> bot lateUser" by (simp add: lateUser_def)
  have s: "set relevantSlots = {''18:00 - 20:00'', ''20:00 - 22:00''}"
    by (simp add: relevantSlots_def)
  from ne r n c f l s crowded_run humans_facts show ?thesis
    by (simp del: upt_Suc)
qed

text \<open>
  C6. When the planning category is absent, or the category is there and today's channel
  is absent under it, \<open>getUsersFromPlanning\<close> returns the empty result, raises nothing,
  issues no remote call and only appends the search line and a not-found warning to the
  log.
\<close>

theorem correlator_not_found:
  "(find (\<lambda>c. ctype c = GuildCategory \<and> name c = categoryName cfg) (channels w) = None \<longrightarrow>
      getUsersFromPlanning rem cfg fmt today dayOfWeek slots w =
        (Inr [],
         w\<lparr>logs := logs w @
              [InfoSearchChannel (todayChannelName fmt today) (getDay today) dayOfWeek,
               WarnCategoryNotFound (categoryName cfg)]\<rparr>))
   \<and> (find (\<lambda>c. ctype c = GuildCategory \<and> name c = categoryName cfg) (channels w) = Some cat \<and>
      find (\<lambda>c. parentId c = Some (cid cat) \<and> ctype c = GuildText \<and>
                 name c = todayChannelName fmt today) (channels w) = None \<longrightarrow>
      getUsersFromPlanning rem cfg fmt today dayOfWeek slots w =
        (Inr [],
         w\<lparr>logs := logs w @
              [InfoSearchChannel (todayChannelName fmt today) (getDay today) dayOfWeek,
               WarnChannelNotFound (todayChannelName fmt today)]\<rparr>))"
  by (simp add: getUsersFromPlanning_def Let_def logger_def)

theorem correlator_not_found_witness:
  "find (\<lambda>c. ctype c = GuildCategory \<and> name c = categoryName sampleConfig) (channels emptyGuild) = None
   \<and> getUsersFromPlanning noneSucceed sampleConfig sampleRender reminderToday 3 relevantSlots emptyGuild =
       (Inr [],
        emptyGuild\<lparr>logs := [InfoSearchChannel ''mercredi-5-novembre'' 3 3,
                              WarnCategoryNotFound ''Planning'']\<rparr>)
   \<and> find (\<lambda>c. ctype c = GuildCategory \<and> name c = categoryName sampleConfig)
        (channels sampleEmptied) = Some sampleCategory
   \<and> find (\<lambda>c. parentId c = Some (cid sampleCategory) \<and> ctype c = GuildText \<and>
                name c = todayChannelName sampleRender reminderToday) (channels sampleEmptied) = None
   \<and> getUsersFromPlanning noneSucceed sampleConfig sampleRender reminderToday 3 relevantSlots
        sampleEmptied =
       (Inr [],
        sampleEmptied\<lparr>logs := logs sampleEmptied @
                          [InfoSearchChannel ''mercredi-5-novembre'' 3 3,
                           WarnChannelNotFound ''mercredi-5-novembre'']\<rparr>)"
proof -
  have a: "find (\<lambda>c. ctype c = GuildCategory \<and> name c = categoryName sampleConfig)
             (channels emptyGuild) = None"
    by (simp add: emptyGuild_def)
  have b: "find (\<lambda>c. ctype c = GuildCategory \<and> name c = categoryName sampleConfig)
        (channels sampleEmptied) = Some sampleCategory"
    by (simp add: sampleEmptied_def sampleCategory_def sampleConfig_def)
  have c: "find (\<lambda>c. parentId c = Some (cid sampleCategory) \<and> ctype c = GuildText \<and>
                name c = todayChannelName sampleRender reminderToday) (channels sampleEmptied) = None"
    by (simp add: sampleEmptied_def sampleCategory_def)
  have g: "getDay reminderToday = 3"
    by (simp add: getDay_def reminderToday_def)
  from correlator_not_found[of sampleConfig emptyGuild noneSucceed sampleRender reminderToday 3
      relevantSlots sampleCategory]
    correlator_not_found[of sampleConfig sampleEmptied noneSucceed sampleRender reminderToday 3
      relevantSlots sampleCategory] a b c
  show ?thesis
    by (simp add: sample_today g sampleConfig_def emptyGuild_def)
qed

lemma addUsers_logs_free:
  "fst (addUsers us s w) = fst (addUsers us s v)"
  by (induction us arbitrary: s w v) auto

lemma slotLoop_logs_free:
  "calls w = calls v \<Longrightarrow> userCache w = userCache v \<Longrightarrow>
     fst (slotLoop rem msgs ts s w) = fst (slotLoop rem msgs ts s v) \<and>
     calls (snd (slotLoop rem msgs ts s w)) = calls (snd (slotLoop rem msgs ts s v)) \<and>
     userCache (snd (slotLoop rem msgs ts s w)) = userCache (snd (slotLoop rem msgs ts s v))"
proof (induction ts arbitrary: s w v)
  case Nil
  then show ?case by simp
next
  case (Cons t ts)
  show ?case
  proof (cases "find (\<lambda>m. content m = t) msgs")
    case None
    then show ?thesis
      using Cons.IH[of "logger (WarnSlotMessageNotFound t) (logger (InfoSearchSlot t) w)"
          "logger (WarnSlotMessageNotFound t) (logger (InfoSearchSlot t) v)" s] Cons.prems
      by (simp add: logger_def)
  next
    case sm: (Some m)
    show ?thesis
    proof (cases "map_of (reactions m) checkMark")
      case None
      then show ?thesis
        using sm Cons.prems
          Cons.IH[of "logger (WarnNoReaction t) (logger (InfoSlotMessageFound t (messageId m))
                       (logger (InfoSearchSlot t) w))"
                     "logger (WarnNoReaction t) (logger (InfoSlotMessageFound t (messageId m))
                       (logger (InfoSearchSlot t) v))" s]
        by (simp add: logger_def)
    next
      case su: (Some us)
      let ?c = "ReactionUsersFetch (messageId m)"
      let ?pre = "\<lambda>x. logger (InfoSlotMessageFound t (messageId m)) (logger (InfoSearchSlot t) x)"
      show ?thesis
      proof (cases "rem (length (calls w)) ?c")
        case False
        with Cons.prems have "reactionUsersFetch rem m us (?pre x) =
            (Inl (Rejected ?c), (?pre x)\<lparr>calls := calls (?pre x) @ [?c]\<rparr>)" if "x = w \<or> x = v" for x
          using that by (auto simp: reactionUsersFetch_def issue_def logger_def)
        from this[of w] this[of v] sm su Cons.prems show ?thesis
          by (simp add: logger_def)
      next
        case True
        let ?got = "\<lambda>x. (?pre x)\<lparr>calls := calls (?pre x) @ [?c]\<rparr>
                         \<lparr>userCache := userCache (?pre x) @ map uid (take 100 us)\<rparr>"
        let ?post = "\<lambda>x. logger (InfoReactedCount t (length (take 100 us))) (?got x)"
        from True Cons.prems have f: "reactionUsersFetch rem m us (?pre x) = (Inr (take 100 us), ?got x)"
          if "x = w \<or> x = v" for x
          using that by (auto simp: reactionUsersFetch_def issue_def logger_def Let_def)
        have au: "calls (snd (addUsers (take 100 us) s (?post x))) = calls x @ [?c] \<and>
                  userCache (snd (addUsers (take 100 us) s (?post x))) =
                    userCache x @ map uid (take 100 us)" for x
          using addUsers_spec[of "take 100 us" s "?post x"] by (simp add: logger_def)
        have c1: "calls (snd (addUsers (take 100 us) s (?post w))) =
                  calls (snd (addUsers (take 100 us) s (?post v)))"
          and u1: "userCache (snd (addUsers (take 100 us) s (?post w))) =
                  userCache (snd (addUsers (take 100 us) s (?post v)))"
          using au[of w] au[of v] Cons.prems by simp_all
        have s1: "fst (addUsers (take 100 us) s (?post w)) = fst (addUsers (take 100 us) s (?post v))"
          by (rule addUsers_logs_free)
        from Cons.IH[OF c1 u1, of "fst (addUsers (take 100 us) s (?post w))"] s1 f[of w] f[of v] sm su
        show ?thesis by (simp add: prod_eq_iff split: prod.splits)
      qed
    qed
  qed
qed

lemma resolveLoop_logs_free:
  "calls w = calls v \<Longrightarrow> userCache w = userCache v \<Longrightarrow>
     fst (resolveLoop rem ids acc w) = fst (resolveLoop rem ids acc v) \<and>
     calls (snd (resolveLoop rem ids acc w)) = calls (snd (resolveLoop rem ids acc v))"
proof (induction ids arbitrary: acc w v)
  case Nil
  then show ?case by simp
next
  case (Cons i ids)
  show ?case
  proof (cases "i \<in> set (userCache w)")
    case True
    with Cons.prems Cons.IH[of w v "acc @ [i]"] show ?thesis by (simp add: usersFetch_def)
  next
    case nc: False
    show ?thesis
    proof (cases "rem (length (calls w)) (UserFetch i)")
      case True
      with nc Cons.prems
        Cons.IH[of "w\<lparr>calls := calls w @ [UserFetch i], userCache := userCache w @ [i]\<rparr>"
          "v\<lparr>calls := calls v @ [UserFetch i], userCache := userCache v @ [i]\<rparr>" "acc @ [i]"]
      show ?thesis by (simp add: usersFetch_def issue_def)
    next
      case False
      with nc Cons.prems
        Cons.IH[of "logger (WarnUserUnavailable i) (w\<lparr>calls := calls w @ [UserFetch i]\<rparr>)"
          "logger (WarnUserUnavailable i) (v\<lparr>calls := calls v @ [UserFetch i]\<rparr>)" acc]
      show ?thesis by (simp add: usersFetch_def issue_def logger_def)
    qed
  qed
qed

text \<open>
  C10. The \<open>dayOfWeek\<close> argument only reaches a log line: two calls that differ in it
  alone return the same result (the same users, or the same error) and issue the same
  remote calls, since the channel looked up is derived from the current date.
\<close>

theorem correlator_ignores_dayOfWeek:
  "fst (getUsersFromPlanning rem cfg fmt today d1 slots w) =
     fst (getUsersFromPlanning rem cfg fmt today d2 slots w)
   \<and> calls (snd (getUsersFromPlanning rem cfg fmt today d1 slots w)) =
       calls (snd (getUsersFromPlanning rem cfg fmt today d2 slots w))"
proof -
  let ?n = "todayChannelName fmt today"
  let ?w0 = "\<lambda>d. logger (InfoSearchChannel ?n (getDay today) d) w"
  have ch0: "channels (?w0 d) = channels w" and c0: "calls (?w0 d) = calls w" for d
    by (simp_all add: logger_def)
  show ?thesis
  proof (cases "find (\<lambda>c. ctype c = GuildCategory \<and> name c = categoryName cfg) (channels w)")
    case None
    then show ?thesis by (simp add: getUsersFromPlanning_def Let_def logger_def)
  next
    case cat: (Some cat)
    show ?thesis
    proof (cases "find (\<lambda>c. parentId c = Some (cid cat) \<and> ctype c = GuildText \<and>
                           name c = ?n) (channels w)")
      case None
      with cat show ?thesis by (simp add: getUsersFromPlanning_def Let_def logger_def)
    next
      case ch: (Some ch)
      let ?w1 = "\<lambda>d. logger (InfoChannelFound (name ch) (cid ch)) (?w0 d)"
      let ?msgs = "take 100 (rev (messages ch))"
      show ?thesis
      proof (cases "rem (length (calls w)) (MessagesFetch (cid ch))")
        case False
        with cat ch show ?thesis
          by (simp add: getUsersFromPlanning_def Let_def logger_def messagesFetch_def issue_def)
      next
        case True
        let ?w2 = "\<lambda>d. logger (InfoMessagesFetched (length ?msgs))
                          ((?w1 d)\<lparr>calls := calls (?w1 d) @ [MessagesFetch (cid ch)]\<rparr>)"
        have mf: "messagesFetch rem ch 100 (?w1 d) =
            (Inr ?msgs, (?w1 d)\<lparr>calls := calls (?w1 d) @ [MessagesFetch (cid ch)]\<rparr>)" for d
          using True by (simp add: messagesFetch_def issue_def logger_def)
        have c2: "calls (?w2 d1) = calls (?w2 d2)" and u2: "userCache (?w2 d1) = userCache (?w2 d2)"
          by (simp_all add: logger_def)
        note sl = slotLoop_logs_free[OF c2 u2, of rem ?msgs slots "[]"]
        have run: "getUsersFromPlanning rem cfg fmt today d slots w =
           (case slotLoop rem ?msgs slots [] (?w2 d) of
              (Inl e, w2) \<Rightarrow> (Inl e, w2)
            | (Inr usersSet, w2) \<Rightarrow>
                (case resolveLoop rem usersSet [] (logger (InfoTotalUsers (length usersSet)) w2) of
                   (users, w3) \<Rightarrow> (Inr users, w3)))" for d
          using cat ch ch0[of d] mf[of d] by (simp add: getUsersFromPlanning_def Let_def)
        obtain r1 v1 where s1: "slotLoop rem ?msgs slots [] (?w2 d1) = (r1, v1)"
          by (cases "slotLoop rem ?msgs slots [] (?w2 d1)")
        obtain r2 v2 where s2: "slotLoop rem ?msgs slots [] (?w2 d2) = (r2, v2)"
          by (cases "slotLoop rem ?msgs slots [] (?w2 d2)")
        from sl s1 s2 have r: "r1 = r2" and cv: "calls v1 = calls v2"
          and uv: "userCache v1 = userCache v2" by simp_all
        show ?thesis
        proof (cases r1)
          case (Inl e)
          then have "r2 = Inl e" using r by simp
          with Inl cv show ?thesis unfolding run s1 s2 by simp
        next
          case (Inr usersSet)
          then have r2: "r2 = Inr usersSet" using r by simp
          have "calls (logger (InfoTotalUsers (length usersSet)) v1) =
                calls (logger (InfoTotalUsers (length usersSet)) v2)"
            and "userCache (logger (InfoTotalUsers (length usersSet)) v1) =
                userCache (logger (InfoTotalUsers (length usersSet)) v2)"
            using cv uv by (simp_all add: logger_def)
          from resolveLoop_logs_free[OF this, of rem usersSet "[]"]
          show ?thesis unfolding run s1 s2 Inr r2 by (auto split: prod.splits)
        qed
      qed
    qed
  qed
qed


section \<open>Properties of the status refresh\<close>

lemmas status_ops = issueStatus_def statusLogger_def messageDelete_def statusSend_def
  messageEdit_def Let_def

lemmas status_samples = sampleImages_def closedManager_def startWorld_def statusAllSucceed_def
  closedRendering_def openRendering_def trackedRef_def repostedRef_def openedManager_def
  publishedWorld_def

lemma sample_urls:
  "sampleUrlCheck openUrl \<and> sampleUrlCheck closeUrl \<and> \<not> sampleUrlCheck ''open.png''"
  by (simp add: sampleUrlCheck_def openUrl_def closeUrl_def)

lemma publishStatus_tracks:
  "publishStatus accepted rem ch m w = (Some msg, m', w') \<Longrightarrow>
     statusMessage m' = Some msg \<and> refChannelType msg = GuildText \<and> refChannel msg = ch \<and>
     accepted (images m (status m))"
  by (auto simp: publishStatus_def buildEmbedAndRow_def status_ops
      split: option.splits prod.splits bool.splits if_splits)

lemma sample_renderings:
  "buildEmbedAndRow sampleUrlCheck closedManager = Some closedRendering \<and>
   buildEmbedAndRow sampleUrlCheck openedManager = Some openRendering \<and>
   buildEmbedAndRow sampleUrlCheck brokenManager = None"
  using sample_urls
  by (simp add: buildEmbedAndRow_def status_samples brokenManager_def brokenImages_def)

lemma sample_published:
  "publishStatus sampleUrlCheck statusAllSucceed 7 closedManager startWorld =
     (Some trackedRef, closedManager\<lparr>statusMessage := Some trackedRef\<rparr>,
      publishedWorld\<lparr>statusLogs := []\<rparr>)
   \<and> updateStatus Ouverte ''Ana'' (closedManager\<lparr>statusMessage := Some trackedRef\<rparr>)
        (publishedWorld\<lparr>statusLogs := []\<rparr>) = (openedManager, publishedWorld)"
proof -
  have "buildEmbedAndRow sampleUrlCheck closedManager = Some closedRendering"
    using sample_renderings by simp
  then show ?thesis
    by (simp add: publishStatus_def updateStatus_def status_ops closedManager_def startWorld_def
        statusAllSucceed_def trackedRef_def openedManager_def publishedWorld_def sampleImages_def)
qed

lemma broken_published:
  "publishStatus sampleUrlCheck statusAllSucceed 7 (closedManager\<lparr>images := brokenImages\<rparr>)
       startWorld =
     (Some trackedRef, closedManager\<lparr>images := brokenImages, statusMessage := Some trackedRef\<rparr>,
      publishedWorld\<lparr>statusLogs := []\<rparr>)
   \<and> updateStatus Ouverte ''Ana''
        (closedManager\<lparr>images := brokenImages, statusMessage := Some trackedRef\<rparr>)
        (publishedWorld\<lparr>statusLogs := []\<rparr>) = (brokenManager, publishedWorld)"
proof -
  have "buildEmbedAndRow sampleUrlCheck (closedManager\<lparr>images := brokenImages\<rparr>) =
          Some closedRendering"
    using sample_urls
    by (simp add: buildEmbedAndRow_def closedManager_def brokenImages_def closedRendering_def)
  then show ?thesis
    by (simp add: publishStatus_def updateStatus_def status_ops closedManager_def startWorld_def
        statusAllSucceed_def trackedRef_def brokenManager_def publishedWorld_def)
qed

text \<open>
  C7, as the code has it. Take a tracked status message in a text channel (what
  \<open>publishStatus\<close> leaves behind). When \<^verbatim>\<open>setImage\<close> accepts the image of the current
  status, the embed is built; the TypeScript source then re-renders by one edit of the
  tracked message and keeps the manager as it is: no deletion, no new message. The
  compiled variant re-renders by repost: it issues the deletion of the tracked message,
  then a send in the same channel, and tracks the new message when the send succeeds
  (when the send is rejected the reference stays). When \<^verbatim>\<open>setImage\<close> refuses the image,
  building the embed throws inside the guard: the TypeScript source issues no call, the
  compiled variant has issued the deletion and nothing else, and both log the error and
  keep the reference. In both cases the two results differ.
\<close>

theorem refresh_edit_versus_repost:
  assumes "statusMessage m = Some tracked" and "refChannelType tracked = GuildText"
  shows "(buildEmbedAndRow accepted m = None) = (\<not> accepted (images m (status m)))
       \<and> (buildEmbedAndRow accepted m = Some body \<longrightarrow>
            shownStatus body = status m \<and> imageUrl body = images m (status m)
          \<and> fst (refreshStatusMessage_ts accepted rem m w) = m
          \<and> issuedStatus w (snd (refreshStatusMessage_ts accepted rem m w)) =
              [MsgEdit (refId tracked) body]
          \<and> issuedStatus w (snd (refreshStatusMessage_js accepted rem m w)) =
              [MsgDelete (refId tracked), MsgSend (refChannel tracked) body]
          \<and> (rem (Suc (length (statusCalls w))) (MsgSend (refChannel tracked) body) \<longrightarrow>
               statusMessage (fst (refreshStatusMessage_js accepted rem m w)) =
                 Some \<lparr>refId = freshId w, refChannel = refChannel tracked, refChannelType = GuildText\<rparr>
               \<and> \<lparr>postedRef = \<lparr>refId = freshId w, refChannel = refChannel tracked,
                                 refChannelType = GuildText\<rparr>,
                    shown = body\<rparr> \<in> set (existing (snd (refreshStatusMessage_js accepted rem m w))))
          \<and> (\<not> rem (Suc (length (statusCalls w))) (MsgSend (refChannel tracked) body) \<longrightarrow>
               fst (refreshStatusMessage_js accepted rem m w) = m)
          \<and> refreshStatusMessage_ts accepted rem m w \<noteq> refreshStatusMessage_js accepted rem m w)
       \<and> (buildEmbedAndRow accepted m = None \<longrightarrow>
            refreshStatusMessage_ts accepted rem m w = (m, statusLogger ErrorRefreshFailed w)
          \<and> issuedStatus w (snd (refreshStatusMessage_ts accepted rem m w)) = []
          \<and> fst (refreshStatusMessage_js accepted rem m w) = m
          \<and> issuedStatus w (snd (refreshStatusMessage_js accepted rem m w)) =
              [MsgDelete (refId tracked)]
          \<and> last (statusLogs (snd (refreshStatusMessage_js accepted rem m w))) = ErrorRefreshFailed
          \<and> refreshStatusMessage_ts accepted rem m w \<noteq> refreshStatusMessage_js accepted rem m w)"
proof -
  let ?ts = "refreshStatusMessage_ts accepted rem m w"
  let ?js = "refreshStatusMessage_js accepted rem m w"
  have v: "(buildEmbedAndRow accepted m = None) = (\<not> accepted (images m (status m)))"
    by (simp add: buildEmbedAndRow_def)
  have built: "?thesis" if b: "buildEmbedAndRow accepted m = Some body"
  proof -
    have f: "shownStatus body = status m" "imageUrl body = images m (status m)"
      using b by (auto simp: buildEmbedAndRow_def split: if_splits)
    have ts: "fst ?ts = m" "issuedStatus w (snd ?ts) = [MsgEdit (refId tracked) body]"
      using assms b
      by (auto simp: refreshStatusMessage_ts_def issuedStatus_def issueStatus_def statusLogger_def
          messageEdit_def split: bool.splits prod.splits)
    have js: "issuedStatus w (snd ?js) =
             [MsgDelete (refId tracked), MsgSend (refChannel tracked) body]"
      using assms b
      by (auto simp: refreshStatusMessage_js_def issuedStatus_def issueStatus_def statusLogger_def
          messageDelete_def statusSend_def Let_def split: bool.splits prod.splits)
    have sent: "rem (Suc (length (statusCalls w))) (MsgSend (refChannel tracked) body) \<longrightarrow>
              statusMessage (fst ?js) =
                Some \<lparr>refId = freshId w, refChannel = refChannel tracked, refChannelType = GuildText\<rparr>
              \<and> \<lparr>postedRef = \<lparr>refId = freshId w, refChannel = refChannel tracked,
                                refChannelType = GuildText\<rparr>,
                   shown = body\<rparr> \<in> set (existing (snd ?js))"
      using assms b
      by (auto simp: refreshStatusMessage_js_def issueStatus_def statusLogger_def
          messageDelete_def statusSend_def Let_def split: bool.splits prod.splits)
    have unsent: "\<not> rem (Suc (length (statusCalls w))) (MsgSend (refChannel tracked) body) \<longrightarrow>
              fst ?js = m"
      using assms b
      by (auto simp: refreshStatusMessage_js_def issueStatus_def statusLogger_def
          messageDelete_def statusSend_def Let_def split: bool.splits prod.splits)
    have "issuedStatus w (snd ?ts) \<noteq> issuedStatus w (snd ?js)"
      unfolding ts js by simp
    then have "?ts \<noteq> ?js" by auto
    with v b f ts js sent unsent show ?thesis by simp
  qed
  have thrown: "?thesis" if b: "buildEmbedAndRow accepted m = None"
  proof -
    have ts: "?ts = (m, statusLogger ErrorRefreshFailed w)"
      using assms b by (simp add: refreshStatusMessage_ts_def)
    then have ts2: "issuedStatus w (snd ?ts) = []"
      by (simp add: issuedStatus_def statusLogger_def)
    have js: "fst ?js = m" "issuedStatus w (snd ?js) = [MsgDelete (refId tracked)]"
      "last (statusLogs (snd ?js)) = ErrorRefreshFailed"
      using assms b
      by (auto simp: refreshStatusMessage_js_def issuedStatus_def issueStatus_def statusLogger_def
          messageDelete_def Let_def split: bool.splits prod.splits)
    have "issuedStatus w (snd ?ts) \<noteq> issuedStatus w (snd ?js)"
      unfolding ts2 js by simp
    then have "?ts \<noteq> ?js" by auto
    with v b ts ts2 js show ?thesis by simp
  qed
  show ?thesis
  proof (cases "buildEmbedAndRow accepted m")
    case None
    then show ?thesis by (rule thrown)
  next
    case (Some b)
    show ?thesis
    proof (cases "b = body")
      case True
      with Some have "buildEmbedAndRow accepted m = Some body" by simp
      then show ?thesis by (rule built)
    next
      case False
      with Some v show ?thesis by simp
    qed
  qed
qed

lemma sample_refresh_ts:
  "refreshStatusMessage_ts sampleUrlCheck statusAllSucceed openedManager publishedWorld =
     (openedManager,
      publishedWorld\<lparr>existing := [\<lparr>postedRef = trackedRef, shown = openRendering\<rparr>],
                     statusCalls := [MsgSend 7 closedRendering, MsgEdit 5 openRendering]\<rparr>)"
proof -
  have "buildEmbedAndRow sampleUrlCheck openedManager = Some openRendering"
    using sample_renderings by simp
  then show ?thesis
    by (simp add: refreshStatusMessage_ts_def status_ops openedManager_def publishedWorld_def
        trackedRef_def statusAllSucceed_def)
qed

lemma sample_refresh_js:
  "refreshStatusMessage_js sampleUrlCheck statusAllSucceed openedManager publishedWorld =
     (openedManager\<lparr>statusMessage := Some repostedRef\<rparr>,
      publishedWorld\<lparr>existing := [\<lparr>postedRef = repostedRef, shown = openRendering\<rparr>],
                     freshId := 7,
                     statusCalls := [MsgSend 7 closedRendering, MsgDelete 5, MsgSend 7 openRendering]\<rparr>)"
proof -
  have "buildEmbedAndRow sampleUrlCheck openedManager = Some openRendering"
    using sample_renderings by simp
  then show ?thesis
    by (simp add: refreshStatusMessage_js_def status_ops openedManager_def publishedWorld_def
        trackedRef_def repostedRef_def statusAllSucceed_def)
qed

theorem refresh_edit_versus_repost_witness:
  "statusMessage openedManager = Some trackedRef \<and> refChannelType trackedRef = GuildText
   \<and> sampleUrlCheck (images openedManager (status openedManager))
   \<and> buildEmbedAndRow sampleUrlCheck openedManager = Some openRendering
   \<and> statusAllSucceed (Suc (length (statusCalls publishedWorld))) (MsgSend 7 openRendering)
   \<and> fst (refreshStatusMessage_ts sampleUrlCheck statusAllSucceed openedManager publishedWorld) =
       openedManager
   \<and> issuedStatus publishedWorld
        (snd (refreshStatusMessage_ts sampleUrlCheck statusAllSucceed openedManager publishedWorld)) =
       [MsgEdit 5 openRendering]
   \<and> issuedStatus publishedWorld
        (snd (refreshStatusMessage_js sampleUrlCheck statusAllSucceed openedManager publishedWorld)) =
       [MsgDelete 5, MsgSend 7 openRendering]
   \<and> statusMessage
        (fst (refreshStatusMessage_js sampleUrlCheck statusAllSucceed openedManager publishedWorld)) =
       Some repostedRef
   \<and> \<not> noneSucceedStatus (Suc (length (statusCalls publishedWorld))) (MsgSend 7 openRendering)
   \<and> fst (refreshStatusMessage_js sampleUrlCheck noneSucceedStatus openedManager publishedWorld) =
       openedManager
   \<and> statusMessage brokenManager = Some trackedRef
   \<and> \<not> sampleUrlCheck (images brokenManager (status brokenManager))
   \<and> buildEmbedAndRow sampleUrlCheck brokenManager = None
   \<and> refreshStatusMessage_ts sampleUrlCheck statusAllSucceed brokenManager publishedWorld =
       (brokenManager, statusLogger ErrorRefreshFailed publishedWorld)
   \<and> issuedStatus publishedWorld
        (snd (refreshStatusMessage_js sampleUrlCheck statusAllSucceed brokenManager publishedWorld)) =
       [MsgDelete 5]
   \<and> fst (refreshStatusMessage_js sampleUrlCheck statusAllSucceed brokenManager publishedWorld) =
       brokenManager"
proof -
  have h: "statusMessage openedManager = Some trackedRef" "refChannelType trackedRef = GuildText"
    and hb: "statusMessage brokenManager = Some trackedRef"
    by (simp_all add: openedManager_def brokenManager_def trackedRef_def)
  have r: "buildEmbedAndRow sampleUrlCheck openedManager = Some openRendering"
    and rb: "buildEmbedAndRow sampleUrlCheck brokenManager = None"
    using sample_renderings by simp_all
  have f: "refId trackedRef = 5" "refChannel trackedRef = 7" "freshId publishedWorld = 6"
    by (simp_all add: trackedRef_def publishedWorld_def)
  have ok: "statusAllSucceed (Suc (length (statusCalls publishedWorld))) (MsgSend 7 openRendering)"
    by (simp add: statusAllSucceed_def)
  have no: "\<not> noneSucceedStatus (Suc (length (statusCalls publishedWorld))) (MsgSend 7 openRendering)"
    by (simp add: noneSucceedStatus_def)
  note t1 = refresh_edit_versus_repost[OF h, of sampleUrlCheck openRendering statusAllSucceed
      publishedWorld, unfolded f]
  note t2 = refresh_edit_versus_repost[OF h, of sampleUrlCheck openRendering noneSucceedStatus
      publishedWorld, unfolded f]
  note t3 = refresh_edit_versus_repost[OF hb h(2), of sampleUrlCheck openRendering statusAllSucceed
      publishedWorld, unfolded f]
  from t1 r have v: "sampleUrlCheck (images openedManager (status openedManager))" by simp
  from t3 rb have vb: "\<not> sampleUrlCheck (images brokenManager (status brokenManager))" by blast
  from t1 r ok have a: "statusMessage
        (fst (refreshStatusMessage_js sampleUrlCheck statusAllSucceed openedManager publishedWorld)) =
       Some repostedRef" by (simp add: repostedRef_def)
  from t2 r no have b: "fst (refreshStatusMessage_js sampleUrlCheck noneSucceedStatus openedManager
       publishedWorld) = openedManager"
    by blast
  from t1 r have c: "fst (refreshStatusMessage_ts sampleUrlCheck statusAllSucceed openedManager
       publishedWorld) = openedManager
     \<and> issuedStatus publishedWorld
        (snd (refreshStatusMessage_ts sampleUrlCheck statusAllSucceed openedManager publishedWorld)) =
       [MsgEdit 5 openRendering]
     \<and> issuedStatus publishedWorld
        (snd (refreshStatusMessage_js sampleUrlCheck statusAllSucceed openedManager publishedWorld)) =
       [MsgDelete 5, MsgSend 7 openRendering]"
    by blast
  from t3 rb have d: "refreshStatusMessage_ts sampleUrlCheck statusAllSucceed brokenManager publishedWorld =
       (brokenManager, statusLogger ErrorRefreshFailed publishedWorld)
     \<and> issuedStatus publishedWorld
        (snd (refreshStatusMessage_js sampleUrlCheck statusAllSucceed brokenManager publishedWorld)) =
       [MsgDelete 5]
     \<and> fst (refreshStatusMessage_js sampleUrlCheck statusAllSucceed brokenManager publishedWorld) =
       brokenManager"
    by blast
  from h hb v r ok a b c d no vb rb show ?thesis by blast
qed

text \<open>
  The claim C7 as stated has both variants repost and behave alike. On the sample, with
  the default image URLs, after publish and update, the TypeScript source issues the
  single call \<open>MsgEdit 5\<close> and still tracks message 5, while the compiled variant issues
  \<open>MsgDelete 5\<close> and a send and tracks the new message 6.
\<close>

theorem refresh_not_equivalent_counterexample:
  "statusMessage openedManager = Some trackedRef
   \<and> sampleUrlCheck (images openedManager (status openedManager))
   \<and> issuedStatus publishedWorld
        (snd (refreshStatusMessage_ts sampleUrlCheck statusAllSucceed openedManager publishedWorld)) =
       [MsgEdit 5 openRendering]
   \<and> statusMessage
        (fst (refreshStatusMessage_ts sampleUrlCheck statusAllSucceed openedManager publishedWorld)) =
       Some trackedRef
   \<and> issuedStatus publishedWorld
        (snd (refreshStatusMessage_js sampleUrlCheck statusAllSucceed openedManager publishedWorld)) =
       [MsgDelete 5, MsgSend 7 openRendering]
   \<and> statusMessage
        (fst (refreshStatusMessage_js sampleUrlCheck statusAllSucceed openedManager publishedWorld)) =
       Some repostedRef
   \<and> refreshStatusMessage_ts sampleUrlCheck statusAllSucceed openedManager publishedWorld \<noteq>
       refreshStatusMessage_js sampleUrlCheck statusAllSucceed openedManager publishedWorld"
proof -
  have "sampleUrlCheck (images openedManager (status openedManager))"
    using sample_urls by (simp add: openedManager_def sampleImages_def)
  then show ?thesis
    unfolding sample_refresh_ts sample_refresh_js
    by (simp add: issuedStatus_def openedManager_def publishedWorld_def trackedRef_def
        repostedRef_def)
qed

section \<open>Properties of the rules service\<close>

lemmas rules_ops = handleAcceptRules_def issueRules_def rulesLogger_def logSignature_def
  reportFailure_def memberRole_def issuedRules_def Let_def

lemma role_absent:
  assumes "handleAcceptRules rem cfg interaction w = (r, w')"
    and "guildRoles interaction = Some roles" and "findRole cfg roles = None"
  shows "issuedRules w w' = [Reply (RoleNotFound (memberRoleName cfg))]
       \<and> grants w' = grants w \<and> signatures w' = signatures w
       \<and> rulesLogs w' = rulesLogs w @ [ErrorRoleNotFound (memberRoleName cfg)]"
  using assms by (auto simp: rules_ops split: bool.splits)

lemma member_fetch_rejected:
  assumes "handleAcceptRules rem cfg interaction w = (r, w')"
    and "memberRole cfg interaction = Some ro"
    and "rem (length (rulesCalls w)) DeferReply"
    and "\<not> rem (Suc (length (rulesCalls w))) (MemberFetch (accountId (presser interaction)))"
  shows "issuedRules w w' =
           [DeferReply, MemberFetch (accountId (presser interaction)), EditReply GenericError]
       \<and> grants w' = grants w \<and> signatures w' = signatures w
       \<and> rulesLogs w' = rulesLogs w @ [ErrorAddRole]
       \<and> (r = None) = rem (Suc (Suc (length (rulesCalls w)))) (EditReply GenericError)"
  using assms by (auto simp: rules_ops split: option.splits bool.splits if_splits)

lemma roles_add_rejected:
  assumes "handleAcceptRules rem cfg interaction w = (r, w')"
    and "memberRole cfg interaction = Some ro"
    and "rem (length (rulesCalls w)) DeferReply"
    and "rem (Suc (length (rulesCalls w))) (MemberFetch (accountId (presser interaction)))"
    and "\<not> rem (Suc (Suc (length (rulesCalls w))))
             (RolesAdd (accountId (presser interaction)) (roleId ro))"
  shows "issuedRules w w' =
           [DeferReply, MemberFetch (accountId (presser interaction)),
            RolesAdd (accountId (presser interaction)) (roleId ro), EditReply GenericError]
       \<and> grants w' = grants w \<and> signatures w' = signatures w
       \<and> rulesLogs w' = rulesLogs w @ [ErrorAddRole]
       \<and> (r = None) = rem (Suc (Suc (Suc (length (rulesCalls w))))) (EditReply GenericError)"
  using assms by (auto simp: rules_ops split: option.splits bool.splits if_splits)

lemma logged_only_after_grant:
  assumes "handleAcceptRules rem cfg interaction w = (r, w')"
    and "signatures w' \<noteq> signatures w"
  shows "\<exists>ro. memberRole cfg interaction = Some ro
       \<and> grants w' = grants w @ [(accountId (presser interaction), roleId ro)]
       \<and> signatures w' = signatures w @ [presser interaction]
       \<and> take 4 (issuedRules w w') =
           [DeferReply, MemberFetch (accountId (presser interaction)),
            RolesAdd (accountId (presser interaction)) (roleId ro),
            AppendFile (logFile cfg) (presser interaction)]"
  using assms by (auto simp: rules_ops split: option.splits bool.splits if_splits)

text \<open>When the runtime does not know the configured time zone, the role is granted,
  \<^verbatim>\<open>logSignature\<close> throws before it writes, and the handler's guard reports the generic
  error: a grant without a line in the acceptance log.\<close>

lemma timezone_unknown:
  assumes "handleAcceptRules rem cfg interaction w = (r, w')"
    and "memberRole cfg interaction = Some ro"
    and "rem (length (rulesCalls w)) DeferReply"
    and "rem (Suc (length (rulesCalls w))) (MemberFetch (accountId (presser interaction)))"
    and "rem (Suc (Suc (length (rulesCalls w))))
             (RolesAdd (accountId (presser interaction)) (roleId ro))"
    and "\<not> timezoneKnown cfg"
  shows "issuedRules w w' =
           [DeferReply, MemberFetch (accountId (presser interaction)),
            RolesAdd (accountId (presser interaction)) (roleId ro), EditReply GenericError]
       \<and> grants w' = grants w @ [(accountId (presser interaction), roleId ro)]
       \<and> signatures w' = signatures w
       \<and> rulesLogs w' = rulesLogs w @ [ErrorAddRole]"
  using assms by (auto simp: rules_ops split: option.splits bool.splits if_splits)

text \<open>
  C8. In every run of \<open>handleAcceptRules\<close>: when the configured member role is absent
  from the guild's roles, the only call is the reply with the administrator-contact
  message, no role is granted and nothing is appended to the acceptance log; when the
  grant fails (the member lookup or \<^verbatim>\<open>roles.add\<close> is rejected), the failure is
  caught, the generic error is reported by an edit of the reply, nothing is granted and
  nothing is logged, and the handler returns normally exactly when that report goes
  through; and the acceptance log grows only in a run in which the role was granted,
  the append coming right after the grant.
\<close>

theorem acceptance_logged_only_when_granted:
  assumes "handleAcceptRules rem cfg interaction w = (r, w')"
  shows "(guildRoles interaction = Some roles \<and> findRole cfg roles = None \<longrightarrow>
            issuedRules w w' = [Reply (RoleNotFound (memberRoleName cfg))]
            \<and> grants w' = grants w \<and> signatures w' = signatures w)
       \<and> (memberRole cfg interaction = Some ro \<and>
          rem (length (rulesCalls w)) DeferReply \<and>
          \<not> rem (Suc (length (rulesCalls w))) (MemberFetch (accountId (presser interaction))) \<longrightarrow>
            issuedRules w w' =
              [DeferReply, MemberFetch (accountId (presser interaction)), EditReply GenericError]
            \<and> grants w' = grants w \<and> signatures w' = signatures w
            \<and> (r = None) = rem (Suc (Suc (length (rulesCalls w)))) (EditReply GenericError))
       \<and> (memberRole cfg interaction = Some ro \<and>
          rem (length (rulesCalls w)) DeferReply \<and>
          rem (Suc (length (rulesCalls w))) (MemberFetch (accountId (presser interaction))) \<and>
          \<not> rem (Suc (Suc (length (rulesCalls w))))
               (RolesAdd (accountId (presser interaction)) (roleId ro)) \<longrightarrow>
            issuedRules w w' =
              [DeferReply, MemberFetch (accountId (presser interaction)),
               RolesAdd (accountId (presser interaction)) (roleId ro), EditReply GenericError]
            \<and> grants w' = grants w \<and> signatures w' = signatures w
            \<and> (r = None) = rem (Suc (Suc (Suc (length (rulesCalls w))))) (EditReply GenericError))
       \<and> (signatures w' \<noteq> signatures w \<longrightarrow>
            (\<exists>granted. memberRole cfg interaction = Some granted
               \<and> grants w' = grants w @ [(accountId (presser interaction), roleId granted)]
               \<and> signatures w' = signatures w @ [presser interaction]
               \<and> take 4 (issuedRules w w') =
                   [DeferReply, MemberFetch (accountId (presser interaction)),
                    RolesAdd (accountId (presser interaction)) (roleId granted),
                    AppendFile (logFile cfg) (presser interaction)]))"
  using role_absent[OF assms, of roles] member_fetch_rejected[OF assms, of ro]
    roles_add_rejected[OF assms, of ro] logged_only_after_grant[OF assms]
  by blast

lemmas rules_samples = sampleRulesConfig_def ana_def memberRoleSample_def pressWithRole_def
  pressWithoutRole_def emptyRulesWorld_def rulesAllSucceed_def findRole_def

lemmas rules_results = afterRoleMissing_def afterFetchRejected_def afterAddRejected_def
  afterAccepted_def

theorem acceptance_logged_only_when_granted_witness:
  "handleAcceptRules rulesAllSucceed sampleRulesConfig pressWithoutRole emptyRulesWorld =
     (None, afterRoleMissing)
   \<and> issuedRules emptyRulesWorld afterRoleMissing = [Reply (RoleNotFound ''Membre'')]
   \<and> signatures afterRoleMissing = signatures emptyRulesWorld
   \<and> grants afterRoleMissing = grants emptyRulesWorld
   \<and> handleAcceptRules rejectMemberFetch sampleRulesConfig pressWithRole emptyRulesWorld =
       (None, afterFetchRejected)
   \<and> signatures afterFetchRejected = signatures emptyRulesWorld
   \<and> handleAcceptRules rejectRolesAdd sampleRulesConfig pressWithRole emptyRulesWorld =
       (None, afterAddRejected)
   \<and> signatures afterAddRejected = signatures emptyRulesWorld
   \<and> handleAcceptRules rulesAllSucceed sampleRulesConfig pressWithRole emptyRulesWorld =
       (None, afterAccepted)
   \<and> signatures afterAccepted \<noteq> signatures emptyRulesWorld
   \<and> grants afterAccepted = grants emptyRulesWorld @ [(accountId ana, roleId memberRoleSample)]"
proof -
  have a: "handleAcceptRules rulesAllSucceed sampleRulesConfig pressWithoutRole emptyRulesWorld =
     (None, afterRoleMissing)"
    by (simp add: rules_ops rules_samples rules_results)
  have b: "handleAcceptRules rejectMemberFetch sampleRulesConfig pressWithRole emptyRulesWorld =
       (None, afterFetchRejected)"
    by (simp add: rules_ops rules_samples rules_results)
  have c: "handleAcceptRules rejectRolesAdd sampleRulesConfig pressWithRole emptyRulesWorld =
       (None, afterAddRejected)"
    by (simp add: rules_ops rules_samples rules_results)
  have d: "handleAcceptRules rulesAllSucceed sampleRulesConfig pressWithRole emptyRulesWorld =
       (None, afterAccepted)"
    by (simp add: rules_ops rules_samples rules_results)
  have absent: "guildRoles pressWithoutRole = Some [\<lparr>roleId = 7, roleName = ''Admin''\<rparr>] \<and>
      findRole sampleRulesConfig [\<lparr>roleId = 7, roleName = ''Admin''\<rparr>] = None"
    by (simp add: rules_samples)
  have mr: "memberRole sampleRulesConfig pressWithRole = Some memberRoleSample"
    by (simp add: memberRole_def rules_samples)
  have p: "presser pressWithRole = ana"
    by (simp add: pressWithRole_def)
  have nofetch: "rejectMemberFetch (length (rulesCalls emptyRulesWorld)) DeferReply \<and>
      \<not> rejectMemberFetch (Suc (length (rulesCalls emptyRulesWorld)))
           (MemberFetch (accountId (presser pressWithRole)))"
    by simp
  have noadd: "rejectRolesAdd (length (rulesCalls emptyRulesWorld)) DeferReply \<and>
      rejectRolesAdd (Suc (length (rulesCalls emptyRulesWorld)))
           (MemberFetch (accountId (presser pressWithRole))) \<and>
      \<not> rejectRolesAdd (Suc (Suc (length (rulesCalls emptyRulesWorld))))
           (RolesAdd (accountId (presser pressWithRole)) (roleId memberRoleSample))"
    by simp
  have changed: "signatures afterAccepted \<noteq> signatures emptyRulesWorld"
    by (simp add: afterAccepted_def emptyRulesWorld_def)
  from acceptance_logged_only_when_granted[OF a, of "[\<lparr>roleId = 7, roleName = ''Admin''\<rparr>]"] absent
  have w1: "issuedRules emptyRulesWorld afterRoleMissing = [Reply (RoleNotFound ''Membre'')]
      \<and> grants afterRoleMissing = grants emptyRulesWorld
      \<and> signatures afterRoleMissing = signatures emptyRulesWorld"
    by (simp add: sampleRulesConfig_def)
  from acceptance_logged_only_when_granted[OF b, of _ memberRoleSample] mr nofetch
  have w2: "signatures afterFetchRejected = signatures emptyRulesWorld" by blast
  from acceptance_logged_only_when_granted[OF c, of _ memberRoleSample] mr noadd
  have w3: "signatures afterAddRejected = signatures emptyRulesWorld" by blast
  from acceptance_logged_only_when_granted[OF d] changed mr p
  have w4: "grants afterAccepted = grants emptyRulesWorld @ [(accountId ana, roleId memberRoleSample)]"
    by auto
  from a b c d w1 w2 w3 w4 changed show ?thesis by blast
qed

end
